theory Spec2Isabelle
  imports Complex_Main "HOL-Library.Multiset" "HOL-Library.Sublist"
begin

chapter \<open>A shallow embedding of the search server\<close>

text \<open>
  The program is a TypeScript server that runs long search operations over a rotating
  set of locations. This theory embeds the parts of it that carry its operation state:
  the store (database/index.ts), the location manager (locations/index.ts), the search
  engines' scoring and deduplication (search/engines.ts), the parser of the AI filter's
  answer (ai/index.ts) and the orchestrator (search/orchestrator.ts).

  Conventions. A TypeScript interface is a record and a union of string literals a
  datatype. An optional property is an \<open>option\<close> (\<open>None\<close> is \<open>undefined\<close> or SQL
  \<open>NULL\<close>). Times are milliseconds since the epoch, as \<open>Date.getTime()\<close> gives them; the
  clock is a parameter of every function that reads it. JavaScript numbers are reals,
  with \<open>NaN\<close> written out where a division can produce it. A table of the store is the
  collection of its rows and a statement of the store a function on tables; where SQL
  itself refuses a statement (a constraint), the refusal is a value, while a fault of the
  storage engine (a lock, the disk) is outside the model. Log lines are left out.
\<close>

section \<open>The data model (types/index.ts)\<close>

datatype op_status = Pending | Running | Completed | Failed | Cancelled

record SearchOperationConfig =
  maxLocations :: "nat option"
  delayBetweenSearches :: "nat option"
  enableQueryExpansion :: "bool option"
  enableResultFiltering :: "bool option"
  enableContactEnrichment :: "bool option"
  aiProvider :: "string option"
  relevanceThreshold :: "real option"

record SearchOperation =
  op_id :: string
  query :: string
  status :: op_status
  startTime :: int
  endTime :: "int option"
  totalLocations :: int
  searchedLocations :: int
  totalResults :: int
  currentLocation :: "string option"
  progress :: real
  error :: "string option"
  config :: SearchOperationConfig

text \<open>\<open>Partial<SearchOperation>\<close>: every property may be absent.\<close>

record SearchOperationUpdates =
  u_id :: "string option"
  u_query :: "string option"
  u_status :: "op_status option"
  u_startTime :: "int option"
  u_endTime :: "int option"
  u_totalLocations :: "int option"
  u_searchedLocations :: "int option"
  u_totalResults :: "int option"
  u_currentLocation :: "string option"
  u_progress :: "real option"
  u_error :: "string option"
  u_config :: "SearchOperationConfig option"

definition no_updates :: SearchOperationUpdates where
  "no_updates = \<lparr>u_id = None, u_query = None, u_status = None, u_startTime = None,
     u_endTime = None, u_totalLocations = None, u_searchedLocations = None,
     u_totalResults = None, u_currentLocation = None, u_progress = None, u_error = None,
     u_config = None\<rparr>"

record SearchProgress =
  p_operationId :: string
  p_status :: op_status
  p_progress :: real
  p_currentLocation :: "string option"
  p_searchedLocations :: int
  p_totalLocations :: int
  p_resultsFound :: int
  p_estimatedTimeRemaining :: "int option"
  p_lastUpdate :: int

record Location =
  loc_id :: string
  loc_name :: string
  country :: string
  countryCode :: string
  region :: "string option"
  city :: "string option"
  searchCode :: string
  priority :: int
  isActive :: bool
  lastSearched :: "int option"
  successRate :: real

record LocationQueue =
  locations :: "Location list"
  currentIndex :: nat
  blacklistedLocations :: "string set"

record SearchResult =
  title :: string
  url :: string
  snippet :: string
  displayUrl :: "string option"
  source :: string
  timestamp :: int
  relevanceScore :: "real option"

section \<open>JavaScript library functions\<close>

text \<open>
  \<open>Array.prototype.sort\<close> with a comparator: the sort is stable, and \<open>a\<close> stays before
  \<open>b\<close> unless the comparator is positive. Insertion from the right gives exactly the
  stable order.
\<close>

fun insert_sorted :: "('a \<Rightarrow> 'a \<Rightarrow> real) \<Rightarrow> 'a \<Rightarrow> 'a list \<Rightarrow> 'a list" where
  "insert_sorted cmp x [] = [x]"
| "insert_sorted cmp x (y # ys) =
     (if cmp x y \<le> 0 then x # y # ys else y # insert_sorted cmp x ys)"

definition array_sort :: "('a \<Rightarrow> 'a \<Rightarrow> real) \<Rightarrow> 'a list \<Rightarrow> 'a list" where
  "array_sort cmp xs = foldr (insert_sorted cmp) xs []"

text \<open>\<open>Array.prototype.slice(0, n)\<close> is \<^term>\<open>take n\<close>.\<close>

section \<open>The store (database/index.ts)\<close>

subsection \<open>Table \<open>locations\<close>\<close>

record LocationRow =
  lr_id :: string
  lr_name :: string
  lr_country :: string
  lr_country_code :: string
  lr_region :: "string option"
  lr_city :: "string option"
  lr_search_code :: string
  lr_priority :: int
  lr_is_active :: bool
  lr_last_searched :: "int option"
  lr_success_rate :: real
  lr_total_searches :: int
  lr_successful_searches :: int

text \<open>The table in rowid order.\<close>

type_synonym locations_table = "LocationRow list"

datatype db_error = NotNullConstraint

text \<open>
  The \<open>SET\<close> clause of \<open>updateLocationStats\<close> on one row. Every right-hand side reads the
  row as it was before the statement.
\<close>

definition location_stats_set :: "int \<Rightarrow> int \<Rightarrow> LocationRow \<Rightarrow> LocationRow" where
  "location_stats_set successValue now r =
     r\<lparr>lr_total_searches := lr_total_searches r + 1,
       lr_successful_searches := lr_successful_searches r + successValue,
       lr_success_rate :=
         real_of_int (lr_successful_searches r + successValue)
           / real_of_int (lr_total_searches r + 1),
       lr_last_searched := Some now\<rparr>"

text \<open>
  \<open>updateLocationStats(id, success)\<close>. SQLite divides by zero to \<open>NULL\<close>, which the column
  \<open>success_rate REAL NOT NULL\<close> refuses: the statement then fails and changes nothing.
\<close>

definition updateLocationStats ::
    "string \<Rightarrow> bool \<Rightarrow> int \<Rightarrow> locations_table \<Rightarrow> db_error + locations_table" where
  "updateLocationStats i success now tbl =
     (let successValue = (if success then 1 else 0) in
      if \<exists>r \<in> set tbl. lr_id r = i \<and> lr_total_searches r + 1 = 0
      then Inl NotNullConstraint
      else Inr (map (\<lambda>r. if lr_id r = i then location_stats_set successValue now r else r) tbl))"

definition row_compare :: "LocationRow \<Rightarrow> LocationRow \<Rightarrow> real" where
  "row_compare a b =
     (if lr_priority a \<noteq> lr_priority b then real_of_int (lr_priority b - lr_priority a)
      else lr_success_rate b - lr_success_rate a)"

definition location_of_row :: "LocationRow \<Rightarrow> Location" where
  "location_of_row r =
     \<lparr>loc_id = lr_id r, loc_name = lr_name r, country = lr_country r,
      countryCode = lr_country_code r, region = lr_region r, city = lr_city r,
      searchCode = lr_search_code r, priority = lr_priority r, isActive = lr_is_active r,
      lastSearched = lr_last_searched r, successRate = lr_success_rate r\<rparr>"

text \<open>
  \<open>database.getLocations(activeOnly)\<close>: \<open>ORDER BY priority DESC, success_rate DESC\<close>. SQL
  leaves the order of ties open; the model keeps them in rowid order.
\<close>

definition db_getLocations :: "bool \<Rightarrow> locations_table \<Rightarrow> Location list" where
  "db_getLocations activeOnly tbl =
     map location_of_row
       (array_sort row_compare (if activeOnly then filter lr_is_active tbl else tbl))"

subsection \<open>Table \<open>search_operations\<close>\<close>

record OperationRow =
  row_id :: string
  row_query :: string
  row_status :: op_status
  start_time :: int
  end_time :: "int option"
  total_locations :: int
  searched_locations :: int
  total_results :: int
  current_location :: "string option"
  row_progress :: real
  row_error :: "string option"
  row_config :: SearchOperationConfig
  updated_at :: int

text \<open>The column \<open>id\<close> is the primary key: the table is a map from ids to rows.\<close>

type_synonym operations_table = "string \<rightharpoonup> OperationRow"

text \<open>
  \<open>insertSearchOperation(operation)\<close> takes \<open>Omit<SearchOperation, 'id'>\<close>: it never reads
  the \<open>id\<close> of its argument. The row is stored under an id the function draws itself
  (\<open>uuidv4()\<close>, here the parameter \<open>fresh\<close>), which it returns.
\<close>

definition insertSearchOperation ::
    "string \<Rightarrow> int \<Rightarrow> SearchOperation \<Rightarrow> operations_table \<Rightarrow> string \<times> operations_table" where
  "insertSearchOperation fresh now operation tbl =
     (fresh,
      tbl(fresh \<mapsto>
        \<lparr>row_id = fresh, row_query = query operation, row_status = status operation,
         start_time = startTime operation, end_time = endTime operation,
         total_locations = totalLocations operation,
         searched_locations = searchedLocations operation,
         total_results = totalResults operation,
         current_location = currentLocation operation, row_progress = progress operation,
         row_error = error operation, row_config = config operation, updated_at = now\<rparr>))"

text \<open>The assignments of an \<open>UPDATE search_operations SET ...\<close> statement.\<close>

datatype assignment =
    Set_status op_status
  | Set_end_time int
  | Set_searched_locations int
  | Set_total_results int
  | Set_current_location string
  | Set_progress real
  | Set_error string
  | Set_updated_at

fun assign :: "int \<Rightarrow> assignment \<Rightarrow> OperationRow \<Rightarrow> OperationRow" where
  "assign now (Set_status s) r = r\<lparr>row_status := s\<rparr>"
| "assign now (Set_end_time t) r = r\<lparr>end_time := Some t\<rparr>"
| "assign now (Set_searched_locations n) r = r\<lparr>searched_locations := n\<rparr>"
| "assign now (Set_total_results n) r = r\<lparr>total_results := n\<rparr>"
| "assign now (Set_current_location l) r = r\<lparr>current_location := Some l\<rparr>"
| "assign now (Set_progress p) r = r\<lparr>row_progress := p\<rparr>"
| "assign now (Set_error e) r = r\<lparr>row_error := Some e\<rparr>"
| "assign now Set_updated_at r = r\<lparr>updated_at := now\<rparr>"

text \<open>The list \<open>fields\<close>/\<open>values\<close> that \<open>updateSearchOperation\<close> builds, test by test.\<close>

definition update_fields :: "SearchOperationUpdates \<Rightarrow> assignment list" where
  "update_fields u =
     (case u_status u of None \<Rightarrow> [] | Some s \<Rightarrow> [Set_status s])
     @ (case u_endTime u of None \<Rightarrow> [] | Some t \<Rightarrow> [Set_end_time t])
     @ (case u_searchedLocations u of None \<Rightarrow> [] | Some n \<Rightarrow> [Set_searched_locations n])
     @ (case u_totalResults u of None \<Rightarrow> [] | Some n \<Rightarrow> [Set_total_results n])
     @ (case u_currentLocation u of None \<Rightarrow> [] | Some l \<Rightarrow> [Set_current_location l])
     @ (case u_progress u of None \<Rightarrow> [] | Some p \<Rightarrow> [Set_progress p])
     @ (case u_error u of None \<Rightarrow> [] | Some e \<Rightarrow> [Set_error e])"

text \<open>
  \<open>updateSearchOperation(id, updates)\<close>: nothing is run when no field was supplied;
  otherwise \<open>updated_at\<close> is set as well, on the row \<open>WHERE id = ?\<close> if there is one.
\<close>

definition updateSearchOperation ::
    "string \<Rightarrow> SearchOperationUpdates \<Rightarrow> int \<Rightarrow> operations_table \<Rightarrow> operations_table" where
  "updateSearchOperation i updates now tbl =
     (let fields = update_fields updates in
      if fields = [] then tbl
      else (case tbl i of
              None \<Rightarrow> tbl
            | Some r \<Rightarrow> tbl(i \<mapsto> fold (assign now) (fields @ [Set_updated_at]) r)))"

text \<open>\<open>getSearchOperation(id)\<close>: the row as a \<open>SearchOperation\<close>, or \<open>null\<close>.\<close>

definition getSearchOperation :: "string \<Rightarrow> operations_table \<Rightarrow> SearchOperation option" where
  "getSearchOperation i tbl =
     (case tbl i of
        None \<Rightarrow> None
      | Some row \<Rightarrow>
          Some \<lparr>op_id = row_id row, query = row_query row, status = row_status row,
                startTime = start_time row, endTime = end_time row,
                totalLocations = total_locations row,
                searchedLocations = searched_locations row,
                totalResults = total_results row,
                currentLocation = current_location row, progress = row_progress row,
                error = row_error row, config = row_config row\<rparr>)"

section \<open>The location manager (locations/index.ts)\<close>

record LocationManager =
  locationQueue :: LocationQueue
  initialized :: bool

text \<open>The constructor.\<close>

definition new_LocationManager :: LocationManager where
  "new_LocationManager =
     \<lparr>locationQueue = \<lparr>locations = [], currentIndex = 0, blacklistedLocations = {}\<rparr>,
      initialized = False\<rparr>"

text \<open>The comparator of both \<open>sort\<close> calls: higher priority first, then higher success rate.\<close>

definition location_compare :: "Location \<Rightarrow> Location \<Rightarrow> real" where
  "location_compare a b =
     (if priority a \<noteq> priority b then real_of_int (priority b - priority a)
      else successRate b - successRate a)"

text \<open>
  \<open>initialize()\<close>. When the store holds no active location, \<open>initializeDefaultLocations\<close>
  inserts the default catalogue first; \<open>defaults\<close> stands for the rows it inserts, each
  under the id that \<open>insertLocation\<close> drew for it.
\<close>

definition initialize ::
    "LocationRow list \<Rightarrow> locations_table \<Rightarrow> LocationManager \<Rightarrow> locations_table \<times> LocationManager" where
  "initialize defaults tbl m =
     (if initialized m then (tbl, m)
      else
        let tbl' = (if db_getLocations True tbl = [] then tbl @ defaults else tbl);
            loaded = db_getLocations True tbl'
        in (tbl',
            m\<lparr>locationQueue := (locationQueue m)\<lparr>locations := array_sort location_compare loaded\<rparr>,
              initialized := True\<rparr>))"

text \<open>
  The \<open>while (attempts < locations.length)\<close> loop of \<open>getNextLocation\<close>. The element at
  \<open>currentIndex\<close> is \<open>undefined\<close> when the index is past the end (the list can shrink on a
  reload), and the test \<open>location && ...\<close> then fails.
\<close>

function next_location_loop :: "LocationQueue \<Rightarrow> nat \<Rightarrow> Location option \<times> LocationQueue" where
  "next_location_loop q attempts =
     (if attempts < length (locations q) then
        (let location =
               (if currentIndex q < length (locations q)
                then Some (locations q ! currentIndex q) else None);
             q' = q\<lparr>currentIndex := (currentIndex q + 1) mod length (locations q)\<rparr>
         in case location of
              Some l \<Rightarrow>
                if loc_id l \<notin> blacklistedLocations q then (Some l, q')
                else next_location_loop q' (attempts + 1)
            | None \<Rightarrow> next_location_loop q' (attempts + 1))
      else (None, q))"
  by pat_completeness auto
termination
  by (relation "measure (\<lambda>(q, attempts). length (locations q) - attempts)") auto

declare next_location_loop.simps [simp del]

definition getNextLocation ::
    "LocationRow list \<Rightarrow> locations_table \<Rightarrow> LocationManager
      \<Rightarrow> Location option \<times> locations_table \<times> LocationManager" where
  "getNextLocation defaults tbl m =
     (let (tbl', m') = initialize defaults tbl m in
      if locations (locationQueue m') = [] then (None, tbl', m')
      else
        let (found, q) = next_location_loop (locationQueue m') 0
        in (found, tbl', m'\<lparr>locationQueue := q\<rparr>))"

text \<open>\<open>k\<close> calls of \<open>getNextLocation\<close> in a row, with what each returned.\<close>

fun getNextLocation_times ::
    "nat \<Rightarrow> LocationRow list \<Rightarrow> locations_table \<Rightarrow> LocationManager
      \<Rightarrow> Location option list \<times> locations_table \<times> LocationManager" where
  "getNextLocation_times 0 defaults tbl m = ([], tbl, m)"
| "getNextLocation_times (Suc k) defaults tbl m =
     (let (found, tbl', m') = getNextLocation defaults tbl m;
          (rest, tbl'', m'') = getNextLocation_times k defaults tbl' m'
      in (found # rest, tbl'', m''))"

text \<open>\<open>getLocations(maxCount?)\<close>: \<open>maxCount && maxCount > 0\<close> holds for a positive count.\<close>

definition getLocations ::
    "nat option \<Rightarrow> LocationRow list \<Rightarrow> locations_table \<Rightarrow> LocationManager
      \<Rightarrow> Location list \<times> locations_table \<times> LocationManager" where
  "getLocations maxCount defaults tbl m =
     (let (tbl', m') = initialize defaults tbl m;
          q = locationQueue m';
          locs = filter (\<lambda>loc. loc_id loc \<notin> blacklistedLocations q) (locations q)
      in ((case maxCount of
             Some n \<Rightarrow> if n > 0 then take n locs else locs
           | None \<Rightarrow> locs), tbl', m'))"

text \<open>
  \<open>updateLocationSuccess(locationId, success)\<close>: the statistics go to the store, the list is
  reloaded from it and sorted again. A failing statement is the exception the caller sees.
\<close>

definition updateLocationSuccess ::
    "string \<Rightarrow> bool \<Rightarrow> int \<Rightarrow> locations_table \<Rightarrow> LocationManager
      \<Rightarrow> db_error + (locations_table \<times> LocationManager)" where
  "updateLocationSuccess i success now tbl m =
     (case updateLocationStats i success now tbl of
        Inl e \<Rightarrow> Inl e
      | Inr tbl' \<Rightarrow>
          Inr (tbl',
               m\<lparr>locationQueue := (locationQueue m)
                    \<lparr>locations := array_sort location_compare (db_getLocations True tbl')\<rparr>\<rparr>))"

subsection \<open>The blacklist and its timers\<close>

text \<open>
  \<open>blacklistLocation\<close> arms a \<open>setTimeout\<close> whose callback deletes the id from the blacklist.
  The run time keeps the armed callbacks: each is the time it is due and the id it will
  delete. The handle that \<open>setTimeout\<close> returns is dropped by the source, so no callback
  is ever cleared.
\<close>

record timeout =
  due :: nat
  target :: string

record timed_manager =
  manager :: LocationManager
  clock :: nat
  timeouts :: "timeout list"

definition blacklist_add :: "string \<Rightarrow> LocationManager \<Rightarrow> LocationManager" where
  "blacklist_add i m =
     m\<lparr>locationQueue := (locationQueue m)
          \<lparr>blacklistedLocations := insert i (blacklistedLocations (locationQueue m))\<rparr>\<rparr>"

definition blacklist_delete :: "string \<Rightarrow> LocationManager \<Rightarrow> LocationManager" where
  "blacklist_delete i m =
     m\<lparr>locationQueue := (locationQueue m)
          \<lparr>blacklistedLocations := blacklistedLocations (locationQueue m) - {i}\<rparr>\<rparr>"

text \<open>\<open>blacklistLocation(locationId, duration)\<close>, called when the clock shows \<open>clock w\<close>.\<close>

definition blacklistLocation :: "string \<Rightarrow> nat \<Rightarrow> timed_manager \<Rightarrow> timed_manager" where
  "blacklistLocation i duration w =
     w\<lparr>manager := blacklist_add i (manager w),
       timeouts := timeouts w @ [\<lparr>due = clock w + duration, target = i\<rparr>]\<rparr>"

text \<open>
  Time passes until \<open>t\<close>: every callback that is due by then runs, none runs early, and
  the others stay armed.
\<close>

definition elapse :: "nat \<Rightarrow> timed_manager \<Rightarrow> timed_manager" where
  "elapse t w =
     w\<lparr>manager := fold blacklist_delete (map target (filter (\<lambda>c. due c \<le> t) (timeouts w))) (manager w),
       clock := max (clock w) t,
       timeouts := filter (\<lambda>c. \<not> due c \<le> t) (timeouts w)\<rparr>"

text \<open>A location can be selected by \<open>getNextLocation\<close> and \<open>getLocations\<close> when it is not blacklisted.\<close>

definition selectable :: "string \<Rightarrow> timed_manager \<Rightarrow> bool" where
  "selectable i w = (i \<notin> blacklistedLocations (locationQueue (manager w)))"


section \<open>The search engines (search/engines.ts)\<close>

subsection \<open>Strings and numbers of JavaScript\<close>

text \<open>
  The strings of the model are strings of ASCII characters: on them \<open>toLowerCase\<close> maps
  the capitals to the small letters and \<open>length\<close> counts the characters, as JavaScript
  does. JavaScript lower-cases the other characters of Unicode too and counts UTF-16
  units; of strings with such characters the model says nothing.
\<close>

definition char_toLowerCase :: "char \<Rightarrow> char" where
  "char_toLowerCase c =
     (case map_of (zip ''ABCDEFGHIJKLMNOPQRSTUVWXYZ'' ''abcdefghijklmnopqrstuvwxyz'') c of
        None \<Rightarrow> c
      | Some l \<Rightarrow> l)"

definition toLowerCase :: "string \<Rightarrow> string" where
  "toLowerCase s = map char_toLowerCase s"

text \<open>\<open>haystack.includes(needle)\<close>.\<close>

fun includes_str :: "string \<Rightarrow> string \<Rightarrow> bool" where
  "includes_str [] needle = (needle = [])"
| "includes_str (c # cs) needle = (prefix needle (c # cs) \<or> includes_str cs needle)"

text \<open>\<open>s.split(sep)\<close> for a separator of one character: an empty string splits to \<open>['']\<close>.\<close>

fun split_on :: "char \<Rightarrow> string \<Rightarrow> string list" where
  "split_on sep [] = [[]]"
| "split_on sep (c # cs) =
     (if c = sep then [] # split_on sep cs
      else (case split_on sep cs of
              [] \<Rightarrow> [[c]]
            | w # ws \<Rightarrow> (c # w) # ws))"

text \<open>A number of JavaScript: a real or \<open>NaN\<close>. \<open>NaN\<close> absorbs \<open>+\<close>, \<open>*\<close> and \<open>Math.min\<close>.\<close>

datatype jsnum = Num real | NaN

fun js_add :: "jsnum \<Rightarrow> jsnum \<Rightarrow> jsnum" where
  "js_add (Num a) (Num b) = Num (a + b)"
| "js_add a b = NaN"

fun js_mul :: "jsnum \<Rightarrow> jsnum \<Rightarrow> jsnum" where
  "js_mul (Num a) (Num b) = Num (a * b)"
| "js_mul a b = NaN"

fun js_min :: "jsnum \<Rightarrow> jsnum \<Rightarrow> jsnum" where
  "js_min (Num a) (Num b) = Num (min a b)"
| "js_min a b = NaN"

text \<open>
  \<open>matches / queryTerms.length\<close> for two lengths: \<open>0 / 0\<close> is \<open>NaN\<close>. (The matches are
  filtered from the terms, so a zero divisor always comes with a zero dividend.)
\<close>

definition js_div_lengths :: "nat \<Rightarrow> nat \<Rightarrow> jsnum" where
  "js_div_lengths a b = (if b = 0 then NaN else Num (real a / real b))"

subsection \<open>\<open>GoogleSearchEngine.calculateRelevanceScore\<close>\<close>

text \<open>An item of the search API's answer: any property may be missing.\<close>

record GoogleItem =
  item_title :: "string option"
  item_link :: "string option"
  item_snippet :: "string option"
  item_displayLink :: "string option"

record SearchQuery =
  q_query :: string
  q_location :: "string option"
  q_maxResults :: "nat option"
  q_language :: "string option"
  q_dateRestrict :: "string option"

text \<open>\<open>s || ''\<close>.\<close>

definition or_empty :: "string option \<Rightarrow> string" where
  "or_empty s = (case s of None \<Rightarrow> [] | Some t \<Rightarrow> t)"

definition professionalKeywords :: "string list" where
  "professionalKeywords =
     [''ceo'', ''cto'', ''manager'', ''director'', ''engineer'', ''developer'', ''analyst'',
      ''consultant'']"

definition calculateRelevanceScore :: "GoogleItem \<Rightarrow> SearchQuery \<Rightarrow> jsnum" where
  "calculateRelevanceScore item q =
     (let score0 = Num (5 / 10);
          title = toLowerCase (or_empty (item_title item));
          snippet = toLowerCase (or_empty (item_snippet item));
          queryLower = toLowerCase (q_query q);
          score1 =
            (if includes_str (or_empty (item_link item)) ''linkedin.com/in/''
             then js_add score0 (Num (3 / 10)) else score0);
          queryTerms = filter (\<lambda>t. length t > 2) (split_on (CHR '' '') queryLower);
          titleMatches = length (filter (\<lambda>t. includes_str title t) queryTerms);
          score2 =
            js_add score1 (js_mul (js_div_lengths titleMatches (length queryTerms)) (Num (3 / 10)));
          snippetMatches = length (filter (\<lambda>t. includes_str snippet t) queryTerms);
          score3 =
            js_add score2 (js_mul (js_div_lengths snippetMatches (length queryTerms)) (Num (2 / 10)));
          professionalMatches =
            length (filter (\<lambda>keyword. includes_str title keyword \<or> includes_str snippet keyword)
                      professionalKeywords);
          score4 = js_add score3 (Num (min (real professionalMatches * (1 / 10)) (2 / 10)));
          score5 =
            (if or_empty (q_location q) \<noteq> [] then
               (let locationLower = toLowerCase (or_empty (q_location q)) in
                if includes_str title locationLower \<or> includes_str snippet locationLower
                then js_add score4 (Num (1 / 10)) else score4)
             else score4)
      in js_min score5 (Num 1))"

subsection \<open>\<open>SearchEngineManager.deduplicateResults\<close>\<close>

text \<open>
  What \<open>new URL(url)\<close> yields. The parser itself belongs to the run time: it is the
  parameter \<open>parse\<close>, and \<open>None\<close> is its \<open>TypeError\<close>.
\<close>

record URL =
  protocol :: string
  host :: string
  pathname :: string
  search :: string
  hash :: string

definition normalizeUrl :: "(string \<Rightarrow> URL option) \<Rightarrow> string \<Rightarrow> string" where
  "normalizeUrl parse u =
     (case parse u of
        Some parsed \<Rightarrow> protocol parsed @ ''//'' @ host parsed @ pathname parsed
      | None \<Rightarrow> u)"

text \<open>One turn of the \<open>for\<close> loop, on the pair of \<open>seen\<close> and \<open>unique\<close>.\<close>

definition dedup_step ::
    "(string \<Rightarrow> URL option) \<Rightarrow> SearchResult \<Rightarrow> string set \<times> SearchResult list
      \<Rightarrow> string set \<times> SearchResult list" where
  "dedup_step parse result acc =
     (let normalizedUrl = normalizeUrl parse (url result) in
      if normalizedUrl \<in> fst acc then acc
      else (insert normalizedUrl (fst acc), snd acc @ [result]))"

definition deduplicateResults ::
    "(string \<Rightarrow> URL option) \<Rightarrow> SearchResult list \<Rightarrow> SearchResult list" where
  "deduplicateResults parse results = snd (fold (dedup_step parse) results ({}, []))"

section \<open>The answer of the AI filter (ai/index.ts)\<close>

text \<open>What \<open>JSON.parse\<close> yields. An object keeps its members in the order of the text.\<close>

datatype json =
    JNull
  | JBool bool
  | JNum real
  | JStr string
  | JArr "json list"
  | JObj "(string \<times> json) list"

text \<open>
  \<open>content.match(/\{[\s\S]*\}/)\<close>: the text from the first opening brace to the last closing
  brace behind it, if there is one.
\<close>

definition match_braces :: "string \<Rightarrow> string option" where
  "match_braces content =
     (let from_open = dropWhile (\<lambda>c. c \<noteq> CHR ''{'') content in
      if from_open = [] then None
      else if CHR ''}'' \<in> set (tl from_open)
      then Some (rev (dropWhile (\<lambda>c. c \<noteq> CHR ''}'') (rev from_open)))
      else None)"

text \<open>
  \<open>parsed.key\<close>: \<open>None\<close> is \<open>undefined\<close>. A later member of an object overrides an earlier
  one of the same name; a value that is no object has no such property. (Reading a
  property of \<open>null\<close> throws; the caller tests for it first.)
\<close>

fun get_property :: "json \<Rightarrow> string \<Rightarrow> json option" where
  "get_property (JObj members) k = map_of (rev members) k"
| "get_property v k = None"

fun truthy :: "json option \<Rightarrow> bool" where
  "truthy None = False"
| "truthy (Some JNull) = False"
| "truthy (Some (JBool b)) = b"
| "truthy (Some (JNum r)) = (r \<noteq> 0)"
| "truthy (Some (JStr s)) = (s \<noteq> [])"
| "truthy (Some v) = True"

text \<open>
  The callbacks of \<open>filter\<close> and \<open>map\<close> on one entry of \<open>relevantIndices\<close>. The source types
  the entry as a number. For an entry that is none, JavaScript converts: \<open>toNumber\<close> is
  its \<open>ToNumber\<close> (\<open>None\<close> for \<open>NaN\<close>) and \<open>toIndex\<close> the array index that the entry
  names as a property key, if any; both are parameters. Reading an array at anything but
  one of its indices gives \<open>undefined\<close>, here \<open>None\<close>.
\<close>

fun index_in_range :: "(json \<Rightarrow> real option) \<Rightarrow> nat \<Rightarrow> json \<Rightarrow> bool" where
  "index_in_range toNumber n (JNum r) = (0 \<le> r \<and> r < real n)"
| "index_in_range toNumber n v =
     (case toNumber v of None \<Rightarrow> False | Some r \<Rightarrow> 0 \<le> r \<and> r < real n)"

definition array_read :: "'a list \<Rightarrow> nat \<Rightarrow> 'a option" where
  "array_read xs i = (if i < length xs then Some (xs ! i) else None)"

fun index_read :: "(json \<Rightarrow> nat option) \<Rightarrow> 'a list \<Rightarrow> json \<Rightarrow> 'a option" where
  "index_read toIndex xs (JNum r) =
     (if 0 \<le> r \<and> r = real_of_int \<lfloor>r\<rfloor> then array_read xs (nat \<lfloor>r\<rfloor>) else None)"
| "index_read toIndex xs v =
     (case toIndex v of None \<Rightarrow> None | Some i \<Rightarrow> array_read xs i)"

record 'a ResultFilterResponse =
  filteredResults :: "'a option list"
  removedCount :: int
  reasoning :: "json option"

text \<open>The two fail-open answers: no brace pair found, and the \<open>catch\<close> block.\<close>

definition all_results_unmatched :: "'a list \<Rightarrow> 'a ResultFilterResponse" where
  "all_results_unmatched originalResults =
     \<lparr>filteredResults = map Some originalResults, removedCount = 0,
      reasoning = Some (JStr ''Failed to parse filter response, returned all results'')\<rparr>"

definition all_results_caught :: "'a list \<Rightarrow> 'a ResultFilterResponse" where
  "all_results_caught originalResults =
     \<lparr>filteredResults = map Some originalResults, removedCount = 0,
      reasoning = Some (JStr ''Failed to parse response, returned all results'')\<rparr>"

text \<open>
  \<open>parseResultFilterResponse(content, originalResults)\<close>. \<open>JSON.parse\<close> is the parameter
  \<open>json_parse\<close>, with \<open>None\<close> for its \<open>SyntaxError\<close>. Inside the \<open>try\<close>, reading a property of
  \<open>null\<close> and calling \<open>.filter\<close> on a value that is no array throw a \<open>TypeError\<close>, which the
  \<open>catch\<close> block answers like a syntax error.
\<close>

definition parseResultFilterResponse ::
    "(string \<Rightarrow> json option) \<Rightarrow> (json \<Rightarrow> real option) \<Rightarrow> (json \<Rightarrow> nat option)
      \<Rightarrow> string \<Rightarrow> 'a list \<Rightarrow> 'a ResultFilterResponse" where
  "parseResultFilterResponse json_parse toNumber toIndex content originalResults =
     (case match_braces content of
        None \<Rightarrow> all_results_unmatched originalResults
      | Some matched \<Rightarrow>
          (case json_parse matched of
             None \<Rightarrow> all_results_caught originalResults
           | Some JNull \<Rightarrow> all_results_caught originalResults
           | Some parsed \<Rightarrow>
               (let relevantIndices =
                      (if truthy (get_property parsed ''relevantIndices'')
                       then get_property parsed ''relevantIndices'' else Some (JArr []))
                in case relevantIndices of
                     Some (JArr entries) \<Rightarrow>
                       (let kept =
                              map (index_read toIndex originalResults)
                                (filter (index_in_range toNumber (length originalResults)) entries)
                        in \<lparr>filteredResults = kept,
                            removedCount = int (length originalResults) - int (length kept),
                            reasoning = get_property parsed ''reasoning''\<rparr>)
                   | _ \<Rightarrow> all_results_caught originalResults)))"


section \<open>The orchestrator (search/orchestrator.ts)\<close>

text \<open>
  An operation is an object that the map \<open>activeOperations\<close> and the running
  \<open>processGlobalSearch\<close> share: \<open>cancelSearch\<close> writes to the very object the loop holds.
  The objects live in \<open>objects\<close>; a reference is a position in it. \<open>search_operations\<close> and
  \<open>location_rows\<close> are the tables of the store, \<open>rotation\<close> is the location manager with
  the timers it has armed.
\<close>

record world =
  objects :: "SearchOperation list"
  activeOperations :: "string \<rightharpoonup> nat"
  operationTimers :: "string \<rightharpoonup> nat"
  search_operations :: operations_table
  location_rows :: locations_table
  rotation :: timed_manager

definition new_world :: world where
  "new_world =
     \<lparr>objects = [], activeOperations = Map.empty, operationTimers = Map.empty,
      search_operations = Map.empty, location_rows = [],
      rotation = \<lparr>manager = new_LocationManager, clock = 0, timeouts = []\<rparr>\<rparr>"

definition modify_object :: "nat \<Rightarrow> (SearchOperation \<Rightarrow> SearchOperation) \<Rightarrow> world \<Rightarrow> world" where
  "modify_object r f w = w\<lparr>objects := (objects w)[r := f (objects w ! r)]\<rparr>"

definition db_update :: "string \<Rightarrow> SearchOperationUpdates \<Rightarrow> int \<Rightarrow> world \<Rightarrow> world" where
  "db_update i updates now w =
     w\<lparr>search_operations := updateSearchOperation i updates now (search_operations w)\<rparr>"

text \<open>
  \<open>globalSearchProfiles(query, config)\<close> up to the start of the asynchronous work.
  \<open>operationId\<close> is the \<open>uuidv4()\<close> drawn here and \<open>rowId\<close> the one that
  \<open>insertSearchOperation\<close> draws; \<open>locs\<close> is what \<open>locationManager.getLocations\<close> returned.
  The result is the id handed to the caller, the reference of the new object and the state.
\<close>

definition globalSearchProfiles ::
    "string \<Rightarrow> string \<Rightarrow> int \<Rightarrow> string \<Rightarrow> SearchOperationConfig \<Rightarrow> Location list \<Rightarrow> world
      \<Rightarrow> string \<times> nat \<times> world" where
  "globalSearchProfiles operationId rowId now q cfg locs w =
     (let operation =
            \<lparr>op_id = operationId, query = q, status = Pending, startTime = now,
             endTime = None, totalLocations = int (length locs), searchedLocations = 0,
             totalResults = 0, currentLocation = None, progress = 0, error = None,
             config = cfg\<rparr>;
          r = length (objects w);
          w1 = w\<lparr>objects := objects w @ [operation],
                 activeOperations := (activeOperations w)(operationId \<mapsto> r)\<rparr>;
          w2 = w1\<lparr>search_operations :=
                    snd (insertSearchOperation rowId now operation (search_operations w1))\<rparr>
      in (operationId, r, w2))"

text \<open>\<open>cancelSearch(operationId)\<close>, called when the clock shows \<open>now\<close>.\<close>

definition cancelSearch :: "string \<Rightarrow> int \<Rightarrow> world \<Rightarrow> bool \<times> world" where
  "cancelSearch operationId now w =
     (case activeOperations w operationId of
        None \<Rightarrow> (False, w)
      | Some r \<Rightarrow>
          (let w1 = modify_object r (\<lambda>operation. operation\<lparr>status := Cancelled, endTime := Some now\<rparr>) w;
               w2 = db_update operationId
                      (no_updates\<lparr>u_status := Some Cancelled, u_endTime := Some now\<rparr>) now w1;
               w3 = w2\<lparr>activeOperations := (activeOperations w2)(operationId := None)\<rparr>;
               w4 = (case operationTimers w3 operationId of
                       None \<Rightarrow> w3
                     | Some timer \<Rightarrow>
                         w3\<lparr>operationTimers := (operationTimers w3)(operationId := None)\<rparr>)
           in (True, w4)))"

subsection \<open>What \<open>processGlobalSearch\<close> does not decide\<close>

text \<open>
  The statements that \<open>processGlobalSearch\<close> and \<open>handleOperationError\<close> await on the store,
  by the place of the call: the write of \<open>status: 'running'\<close>; at location \<open>i\<close> the write of
  the current location and the progress, \<open>updateLocationSuccess\<close> at the end of the \<open>try\<close>
  block, the write of the counters behind it, and \<open>updateLocationSuccess\<close> in the \<open>catch\<close>
  block; the write of \<open>status: 'completed'\<close>; the write of \<open>status: 'failed'\<close>.
\<close>

datatype store_call =
    StartWrite
  | ProgressWrite nat
  | OutcomeWrite nat
  | CountersWrite nat
  | HandlerWrite nat
  | FinalWrite
  | FailureWrite

text \<open>
  What the surroundings do while the loop of \<open>processGlobalSearch\<close> is at location \<open>i\<close>:
  \<^item> \<open>outcome i\<close>: the searches, the filter, the stored profiles and the enrichment of the
    \<open>try\<close> block leave \<open>finalResults\<close> with that many results, or an exception leaves the
    block before \<open>updateLocationSuccess\<close> is called. These steps change none of the fields
    below.
  \<^item> \<open>cancel_requested i\<close>: a \<open>cancelSearch\<close> for this operation is served while the loop
    waits for the providers of location \<open>i\<close>. A request served during the pause behind
    the location changes the same fields and is seen at the same test.
  \<^item> \<open>time_at i\<close>: the clock at location \<open>i\<close>; \<open>time_at\<close> of the number of locations is
    the clock when the operation is completed.
  \<^item> \<open>store_fault c\<close>: the statement of the call \<open>c\<close> is refused by the database (a locked
    or full database, say) and throws an error of that message before it has changed
    anything. The refusal that the table \<open>locations\<close> decides itself, the \<open>NOT NULL\<close>
    constraint of \<open>updateLocationStats\<close>, is not part of it.
\<close>

datatype location_outcome = Searched nat | Raised

record surroundings =
  outcome :: "nat \<Rightarrow> location_outcome"
  cancel_requested :: "nat \<Rightarrow> bool"
  time_at :: "nat \<Rightarrow> int"
  store_fault :: "store_call \<Rightarrow> string option"

text \<open>An awaited \<open>database.updateSearchOperation\<close>: the message of the error, or the new state.\<close>

definition operation_write ::
    "surroundings \<Rightarrow> store_call \<Rightarrow> string \<Rightarrow> SearchOperationUpdates \<Rightarrow> int \<Rightarrow> world \<Rightarrow> string + world" where
  "operation_write env c i updates now w =
     (case store_fault env c of
        Some message \<Rightarrow> Inl message
      | None \<Rightarrow> Inr (db_update i updates now w))"

definition error_message :: "db_error \<Rightarrow> string" where
  "error_message e =
     (case e of NotNullConstraint \<Rightarrow> ''NOT NULL constraint failed: locations.success_rate'')"

text \<open>An awaited \<open>locationManager.updateLocationSuccess\<close>.\<close>

definition location_write ::
    "surroundings \<Rightarrow> store_call \<Rightarrow> string \<Rightarrow> bool \<Rightarrow> int \<Rightarrow> world \<Rightarrow> string + world" where
  "location_write env c i success now w =
     (case store_fault env c of
        Some message \<Rightarrow> Inl message
      | None \<Rightarrow>
          (case updateLocationSuccess i success now (location_rows w) (manager (rotation w)) of
             Inl e \<Rightarrow> Inl (error_message e)
           | Inr (tbl, m) \<Rightarrow>
               Inr (w\<lparr>location_rows := tbl, rotation := (rotation w)\<lparr>manager := m\<rparr>\<rparr>)))"

subsection \<open>\<open>processGlobalSearch\<close>\<close>

text \<open>
  How one turn of the \<open>for\<close> loop ends: it goes on to the next location with a new value
  of \<open>consecutiveFailures\<close>, it leaves the loop by \<open>break\<close>, it leaves the function by
  \<open>return\<close>, or an exception leaves the loop for the outer \<open>catch\<close>.
\<close>

datatype step = Continue nat world | Break world | Return world | Throw string world

definition maxConsecutiveFailures :: nat where
  "maxConsecutiveFailures = 3"

text \<open>
  The \<open>catch\<close> block of the loop for location \<open>i\<close>, entered with the old value of
  \<open>consecutiveFailures\<close>. Its \<open>updateLocationSuccess\<close> is awaited outside any inner \<open>try\<close>:
  an error of that call leaves the loop. The timers that are due by now have run when
  \<open>blacklistLocation\<close> arms the next one.
\<close>

definition location_failed :: "surroundings \<Rightarrow> Location list \<Rightarrow> nat \<Rightarrow> nat \<Rightarrow> world \<Rightarrow> step" where
  "location_failed env locs i consecutiveFailures w =
     (let location = locs ! i in
      case location_write env (HandlerWrite i) (loc_id location) False (time_at env i) w of
        Inl message \<Rightarrow> Throw message w
      | Inr w1 \<Rightarrow>
          (let w2 = w1\<lparr>rotation :=
                        blacklistLocation (loc_id location) 3600000
                          (elapse (nat (time_at env i)) (rotation w1))\<rparr>
           in if consecutiveFailures + 1 \<ge> maxConsecutiveFailures then Break w2
              else Continue (consecutiveFailures + 1) w2))"

text \<open>
  The body of the loop for location \<open>i < locations.length\<close>. The write of the current
  location and the progress is outside the inner \<open>try\<close>; the two store calls at the end of
  the \<open>try\<close> block are inside, so an error of theirs is a failure of the location like an
  exception of the providers. The pause behind the location changes no state.
\<close>

definition location_step ::
    "surroundings \<Rightarrow> string \<Rightarrow> nat \<Rightarrow> Location list \<Rightarrow> nat \<Rightarrow> nat \<Rightarrow> world \<Rightarrow> step" where
  "location_step env operationId r locs i consecutiveFailures w =
     (let location = locs ! i in
      if activeOperations w operationId = None then Return w
      else
        (let w1 = modify_object r
                    (\<lambda>operation. operation\<lparr>currentLocation := Some (loc_name location),
                                            progress := real i / real (length locs)\<rparr>) w
         in case operation_write env (ProgressWrite i) operationId
                   (no_updates\<lparr>u_currentLocation :=
                                  (if loc_name location = [] then None
                                   else Some (loc_name location)),
                                u_progress := Some (real i / real (length locs))\<rparr>)
                   (time_at env i) w1 of
              Inl message \<Rightarrow> Throw message w1
            | Inr w2 \<Rightarrow>
                (let w3 = (if cancel_requested env i
                           then snd (cancelSearch operationId (time_at env i) w2) else w2)
                 in case outcome env i of
                      Raised \<Rightarrow> location_failed env locs i consecutiveFailures w3
                    | Searched n \<Rightarrow>
                        (case location_write env (OutcomeWrite i) (loc_id location) (0 < n)
                                (time_at env i) w3 of
                           Inl message \<Rightarrow> location_failed env locs i consecutiveFailures w3
                         | Inr w4 \<Rightarrow>
                             (let w5 = modify_object r
                                         (\<lambda>operation.
                                            operation\<lparr>totalResults := totalResults operation + int n,
                                                      searchedLocations := int i + 1\<rparr>) w4
                              in case operation_write env (CountersWrite i) operationId
                                        (no_updates\<lparr>u_totalResults :=
                                                       Some (totalResults (objects w5 ! r)),
                                                     u_searchedLocations :=
                                                       Some (searchedLocations (objects w5 ! r))\<rparr>)
                                        (time_at env i) w5 of
                                   Inl message \<Rightarrow> location_failed env locs i consecutiveFailures w5
                                 | Inr w6 \<Rightarrow> Continue 0 w6)))))"

text \<open>How the \<open>for\<close> loop ends: past the last location, by \<open>break\<close> at a location, by
  \<open>return\<close> at the test for cancellation of a location, or by an exception at a location.\<close>

datatype loop_exit = Exhausted | Stopped nat | CancelSeen nat | Escaped nat string

function location_loop ::
    "surroundings \<Rightarrow> string \<Rightarrow> nat \<Rightarrow> Location list \<Rightarrow> nat \<Rightarrow> nat \<Rightarrow> world \<Rightarrow> loop_exit \<times> world" where
  "location_loop env operationId r locs i consecutiveFailures w =
     (if i < length locs then
        (case location_step env operationId r locs i consecutiveFailures w of
           Continue c w' \<Rightarrow> location_loop env operationId r locs (i + 1) c w'
         | Break w' \<Rightarrow> (Stopped i, w')
         | Return w' \<Rightarrow> (CancelSeen i, w')
         | Throw message w' \<Rightarrow> (Escaped i message, w'))
      else (Exhausted, w))"
  by pat_completeness auto
termination
  by (relation "measure (\<lambda>(env, operationId, r, locs, i, consecutiveFailures, w). length locs - i)") auto

declare location_loop.simps [simp del]

text \<open>
  \<open>handleOperationError(operationId, error)\<close> for an error of that message, when the clock
  shows \<open>now\<close>. When its own write is refused, the operation stays in the active map.
\<close>

definition handleOperationError :: "surroundings \<Rightarrow> string \<Rightarrow> string \<Rightarrow> int \<Rightarrow> world \<Rightarrow> world" where
  "handleOperationError env operationId message now w =
     (case activeOperations w operationId of
        None \<Rightarrow> w
      | Some r \<Rightarrow>
          (let w1 = modify_object r
                      (\<lambda>operation. operation\<lparr>status := Failed, endTime := Some now,
                                              error := Some message\<rparr>) w
           in case operation_write env FailureWrite operationId
                     (no_updates\<lparr>u_status := Some Failed, u_endTime := Some now,
                                  u_error := Some message\<rparr>) now w1 of
                Inl refused \<Rightarrow> w1
              | Inr w2 \<Rightarrow> w2\<lparr>activeOperations := (activeOperations w2)(operationId := None)\<rparr>))"

text \<open>
  How \<open>processGlobalSearch\<close> ends: at once because the operation is not active, at the
  loop's test for cancellation, behind the statements that complete the operation, or in
  \<open>handleOperationError\<close> with the message of the error.
\<close>

datatype run_end = NotActive | SawCancel nat | Finished loop_exit | Handled string

text \<open>The statements behind the loop (\<open>// Complete operation\<close>).\<close>

definition complete_operation ::
    "surroundings \<Rightarrow> string \<Rightarrow> nat \<Rightarrow> Location list \<Rightarrow> loop_exit \<Rightarrow> world \<Rightarrow> run_end \<times> world" where
  "complete_operation env operationId r locs exit w =
     (let finished = time_at env (length locs);
          w1 = modify_object r
                 (\<lambda>operation. operation\<lparr>status := Completed, endTime := Some finished,
                                         progress := 1\<rparr>) w
      in case operation_write env FinalWrite operationId
                (no_updates\<lparr>u_status := Some Completed, u_endTime := Some finished,
                             u_progress := Some 1\<rparr>) finished w1 of
           Inl message \<Rightarrow> (Handled message, handleOperationError env operationId message finished w1)
         | Inr w2 \<Rightarrow>
             (Finished exit, w2\<lparr>activeOperations := (activeOperations w2)(operationId := None)\<rparr>))"

text \<open>
  \<open>processGlobalSearch(operationId, query, locations, config)\<close>. The expansion of the
  query between the first write and the loop catches its own errors and changes no state.
\<close>

definition processGlobalSearch ::
    "surroundings \<Rightarrow> string \<Rightarrow> Location list \<Rightarrow> world \<Rightarrow> run_end \<times> world" where
  "processGlobalSearch env operationId locs w =
     (case activeOperations w operationId of
        None \<Rightarrow> (NotActive, w)
      | Some r \<Rightarrow>
          (let w1 = modify_object r (\<lambda>operation. operation\<lparr>status := Running\<rparr>) w
           in case operation_write env StartWrite operationId
                     (no_updates\<lparr>u_status := Some Running\<rparr>) (time_at env 0) w1 of
                Inl message \<Rightarrow>
                  (Handled message, handleOperationError env operationId message (time_at env 0) w1)
              | Inr w2 \<Rightarrow>
                  (let (exit, w3) = location_loop env operationId r locs 0 0 w2
                   in case exit of
                        CancelSeen i \<Rightarrow> (SawCancel i, w3)
                      | Escaped i message \<Rightarrow>
                          (Handled message,
                           handleOperationError env operationId message (time_at env i) w3)
                      | Exhausted \<Rightarrow> complete_operation env operationId r locs exit w3
                      | Stopped i \<Rightarrow> complete_operation env operationId r locs exit w3)))"

subsection \<open>Progress\<close>

text \<open>
  \<open>calculateEstimatedTime(operation)\<close> when \<open>Date.now()\<close> is \<open>now\<close>; \<open>None\<close> is \<open>undefined\<close>.
  The numbers of JavaScript are IEEE doubles: \<open>double_div\<close> and \<open>double_mul\<close> stand for
  their \<open>/\<close> and \<open>*\<close>, which round the exact result to the nearest double. The elapsed
  time and the counters are integers that a double holds exactly. \<open>Math.round\<close> of a
  double is the integer next to it, a half going up.
\<close>

definition calculateEstimatedTime ::
    "(real \<Rightarrow> real \<Rightarrow> real) \<Rightarrow> (real \<Rightarrow> real \<Rightarrow> real) \<Rightarrow> int \<Rightarrow> SearchOperation \<Rightarrow> int option" where
  "calculateEstimatedTime double_div double_mul now operation =
     (if status operation = Completed \<or> status operation = Failed then Some 0
      else if searchedLocations operation = 0 then None
      else
        (let elapsed = now - startTime operation;
             avgTimePerLocation =
               double_div (real_of_int elapsed) (real_of_int (searchedLocations operation));
             remainingLocations = totalLocations operation - searchedLocations operation
         in Some (round (double_mul avgTimePerLocation (real_of_int remainingLocations)))))"

text \<open>\<open>getSearchProgress(operationId)\<close>: an empty \<open>currentLocation\<close> is left out like a missing one.\<close>

definition getSearchProgress ::
    "(real \<Rightarrow> real \<Rightarrow> real) \<Rightarrow> (real \<Rightarrow> real \<Rightarrow> real) \<Rightarrow> string \<Rightarrow> int \<Rightarrow> operations_table
      \<Rightarrow> SearchProgress option" where
  "getSearchProgress double_div double_mul operationId now tbl =
     (case getSearchOperation operationId tbl of
        None \<Rightarrow> None
      | Some operation \<Rightarrow>
          Some \<lparr>p_operationId = op_id operation, p_status = status operation,
                p_progress = progress operation,
                p_currentLocation =
                  (if or_empty (currentLocation operation) = [] then None
                   else currentLocation operation),
                p_searchedLocations = searchedLocations operation,
                p_totalLocations = totalLocations operation,
                p_resultsFound = totalResults operation,
                p_estimatedTimeRemaining =
                  calculateEstimatedTime double_div double_mul now operation,
                p_lastUpdate = now\<rparr>)"

section \<open>Auxiliary notions\<close>

text \<open>
  How many locations directly before location \<open>i\<close> raised, one after the other: the value
  that \<open>consecutiveFailures\<close> has when the loop reaches \<open>i\<close> and no store call has failed.
\<close>

fun streak :: "surroundings \<Rightarrow> nat \<Rightarrow> nat" where
  "streak env 0 = 0"
| "streak env (Suc i) = (case outcome env i of Raised \<Rightarrow> Suc (streak env i) | Searched n \<Rightarrow> 0)"

text \<open>Nothing disturbs the loop at location \<open>i\<close>: no cancellation is served and no store call is refused.\<close>

definition undisturbed :: "surroundings \<Rightarrow> nat \<Rightarrow> bool" where
  "undisturbed env i \<longleftrightarrow>
     \<not> cancel_requested env i \<and> store_fault env (ProgressWrite i) = None \<and>
     store_fault env (OutcomeWrite i) = None \<and> store_fault env (CountersWrite i) = None \<and>
     store_fault env (HandlerWrite i) = None"

text \<open>
  The state in which \<open>globalSearchProfiles\<close> leaves an operation and in which the loop keeps
  it: the object is in the active map and knows the length of the queue, the store has no
  operation of its id, and no counter of the table \<open>locations\<close> is negative.
\<close>

definition tracked :: "string \<Rightarrow> nat \<Rightarrow> nat \<Rightarrow> world \<Rightarrow> bool" where
  "tracked operationId r n w \<longleftrightarrow>
     activeOperations w operationId = Some r \<and> r < length (objects w) \<and>
     totalLocations (objects w ! r) = int n \<and>
     search_operations w operationId = None \<and>
     list_all (\<lambda>row. 0 \<le> lr_total_searches row) (location_rows w)"


section \<open>Concrete inputs\<close>

definition empty_config :: SearchOperationConfig where
  "empty_config =
     \<lparr>maxLocations = None, delayBetweenSearches = None, enableQueryExpansion = None,
      enableResultFiltering = None, enableContactEnrichment = None, aiProvider = None,
      relevanceThreshold = None\<rparr>"

definition pending_row :: OperationRow where
  "pending_row =
     \<lparr>row_id = ''op-1'', row_query = ''data analyst'', row_status = Pending, start_time = 1000,
      end_time = None, total_locations = 3, searched_locations = 0, total_results = 0,
      current_location = None, row_progress = 0, row_error = None, row_config = empty_config,
      updated_at = 1000\<rparr>"


definition fresh_row :: LocationRow where
  "fresh_row =
     \<lparr>lr_id = ''loc-1'', lr_name = ''Canada'', lr_country = ''Canada'', lr_country_code = ''CA'',
      lr_region = None, lr_city = None, lr_search_code = ''CA'', lr_priority = 9,
      lr_is_active = True, lr_last_searched = None, lr_success_rate = 0,
      lr_total_searches = 0, lr_successful_searches = 0\<rparr>"

definition linkedin_item :: GoogleItem where
  "linkedin_item =
     \<lparr>item_title = Some ''Jane Doe - VP HR'', item_link = Some ''https://www.linkedin.com/in/jane'',
      item_snippet = Some ''VP of HR at Acme'', item_displayLink = None\<rparr>"

definition short_query :: SearchQuery where
  "short_query =
     \<lparr>q_query = ''vp hr'', q_location = None, q_maxResults = Some 10, q_language = None,
      q_dateRestrict = None\<rparr>"

definition idle_manager :: timed_manager where
  "idle_manager = \<lparr>manager = new_LocationManager, clock = 0, timeouts = []\<rparr>"

definition page_url_parser :: "string \<Rightarrow> URL option" where
  "page_url_parser u =
     (if u = ''https://x.org/in/a?trk=1''
      then Some \<lparr>protocol = ''https:'', host = ''x.org'', pathname = ''/in/a'', search = ''?trk=1'', hash = ''''\<rparr>
      else if u = ''https://x.org/in/a#top''
      then Some \<lparr>protocol = ''https:'', host = ''x.org'', pathname = ''/in/a'', search = '''', hash = ''#top''\<rparr>
      else if u = ''https://x.org/in/b''
      then Some \<lparr>protocol = ''https:'', host = ''x.org'', pathname = ''/in/b'', search = '''', hash = ''''\<rparr>
      else None)"

definition result_at :: "string \<Rightarrow> string \<Rightarrow> SearchResult" where
  "result_at t u =
     \<lparr>title = t, url = u, snippet = '''', displayUrl = None, source = ''google'', timestamp = 0,
      relevanceScore = None\<rparr>"

definition location_row :: "string \<Rightarrow> string \<Rightarrow> int \<Rightarrow> real \<Rightarrow> LocationRow" where
  "location_row i n p rate =
     \<lparr>lr_id = i, lr_name = n, lr_country = n, lr_country_code = [], lr_region = None,
      lr_city = None, lr_search_code = n, lr_priority = p, lr_is_active = True,
      lr_last_searched = None, lr_success_rate = rate, lr_total_searches = 0,
      lr_successful_searches = 0\<rparr>"

definition three_rows :: locations_table where
  "three_rows =
     [location_row ''loc-uk'' ''United Kingdom'' 9 (1 / 5),
      location_row ''loc-us'' ''United States'' 10 0,
      location_row ''loc-ca'' ''Canada'' 9 (1 / 2)]"

definition seven_locations :: "Location list" where
  "seven_locations =
     map (\<lambda>n. location_of_row (location_row n n 5 0))
       [''United States'', ''United Kingdom'', ''Canada'', ''Australia'', ''Germany'', ''France'',
        ''Netherlands'']"

definition seven_rows :: locations_table where
  "seven_rows =
     map (\<lambda>n. location_row n n 5 0)
       [''United States'', ''United Kingdom'', ''Canada'', ''Australia'', ''Germany'', ''France'',
        ''Netherlands'']"

text \<open>
  Locations 0 and 1 raise, location 2 is searched with four results, every later one
  raises. Nobody cancels and the store refuses nothing.
\<close>

definition failing_surroundings :: surroundings where
  "failing_surroundings =
     \<lparr>outcome = (\<lambda>i. if i = 2 then Searched 4 else Raised),
      cancel_requested = (\<lambda>i. False),
      time_at = (\<lambda>i. 2000 + int i),
      store_fault = (\<lambda>c. None)\<rparr>"

text \<open>The same, but the store refuses the statement of the \<open>catch\<close> block at location 5.\<close>

definition refusing_surroundings :: surroundings where
  "refusing_surroundings =
     failing_surroundings
       \<lparr>store_fault := (\<lambda>c. if c = HandlerWrite 5 then Some ''database is locked'' else None)\<rparr>"

text \<open>A server that has loaded seven locations and started a global search over them.\<close>

definition started_search :: "string \<times> nat \<times> world" where
  "started_search =
     globalSearchProfiles ''op-1'' ''row-1'' 1000 ''data analyst'' empty_config seven_locations
       (new_world\<lparr>location_rows := seven_rows\<rparr>)"
chapter \<open>Properties\<close>

section \<open>The store\<close>

lemma fold_assign_update_fields:
  "fold (assign now) (update_fields u) r =
     r\<lparr>row_status := (case u_status u of None \<Rightarrow> row_status r | Some s \<Rightarrow> s),
       end_time := (case u_endTime u of None \<Rightarrow> end_time r | Some t \<Rightarrow> Some t),
       searched_locations :=
         (case u_searchedLocations u of None \<Rightarrow> searched_locations r | Some n \<Rightarrow> n),
       total_results := (case u_totalResults u of None \<Rightarrow> total_results r | Some n \<Rightarrow> n),
       current_location :=
         (case u_currentLocation u of None \<Rightarrow> current_location r | Some l \<Rightarrow> Some l),
       row_progress := (case u_progress u of None \<Rightarrow> row_progress r | Some p \<Rightarrow> p),
       row_error := (case u_error u of None \<Rightarrow> row_error r | Some e \<Rightarrow> Some e)\<rparr>"
  by (cases "u_status u"; cases "u_endTime u"; cases "u_searchedLocations u";
      cases "u_totalResults u"; cases "u_currentLocation u"; cases "u_progress u";
      cases "u_error u") (simp_all add: update_fields_def)

text \<open>
  Claim C9. On a stored operation, \<open>updateSearchOperation\<close> sets each of status, endTime,
  searchedLocations, totalResults, currentLocation, progress and error to the supplied
  value exactly when one is supplied, whatever else is supplied; a field that is left out
  keeps its value, the columns that cannot be updated (id, query, start time, total
  locations, config) keep theirs, and no other row changes.
\<close>

theorem updateSearchOperation_sets_supplied_fields:
  assumes "tbl i = Some r"
  shows "\<exists>r'. updateSearchOperation i u now tbl i = Some r' \<and>
     row_status r' = (case u_status u of None \<Rightarrow> row_status r | Some s \<Rightarrow> s) \<and>
     end_time r' = (case u_endTime u of None \<Rightarrow> end_time r | Some t \<Rightarrow> Some t) \<and>
     searched_locations r' =
       (case u_searchedLocations u of None \<Rightarrow> searched_locations r | Some n \<Rightarrow> n) \<and>
     total_results r' = (case u_totalResults u of None \<Rightarrow> total_results r | Some n \<Rightarrow> n) \<and>
     current_location r' =
       (case u_currentLocation u of None \<Rightarrow> current_location r | Some l \<Rightarrow> Some l) \<and>
     row_progress r' = (case u_progress u of None \<Rightarrow> row_progress r | Some p \<Rightarrow> p) \<and>
     row_error r' = (case u_error u of None \<Rightarrow> row_error r | Some e \<Rightarrow> Some e) \<and>
     row_id r' = row_id r \<and> row_query r' = row_query r \<and> start_time r' = start_time r \<and>
     total_locations r' = total_locations r \<and> row_config r' = row_config r \<and>
     (\<forall>j. j \<noteq> i \<longrightarrow> updateSearchOperation i u now tbl j = tbl j)"
proof (cases "update_fields u = []")
  case True
  then have none: "u_status u = None" "u_endTime u = None" "u_searchedLocations u = None"
    "u_totalResults u = None" "u_currentLocation u = None" "u_progress u = None"
    "u_error u = None"
    by (auto simp: update_fields_def split: option.splits)
  from True have "updateSearchOperation i u now tbl = tbl"
    by (simp add: updateSearchOperation_def)
  with assms none show ?thesis by simp
next
  case False
  with assms have "updateSearchOperation i u now tbl =
      tbl(i \<mapsto> fold (assign now) (update_fields u @ [Set_updated_at]) r)"
    by (simp add: updateSearchOperation_def)
  then show ?thesis by (simp add: fold_assign_update_fields)
qed

theorem updateSearchOperation_sets_supplied_fields_witness:
  "[''op-1'' \<mapsto> pending_row] ''op-1'' = Some pending_row \<and>
   (\<exists>r'. updateSearchOperation ''op-1''
            (no_updates\<lparr>u_status := Some Running, u_progress := Some (1 / 2)\<rparr>) 2000
            [''op-1'' \<mapsto> pending_row] ''op-1'' = Some r' \<and>
          row_status r' = Running \<and> row_progress r' = 1 / 2 \<and>
          searched_locations r' = 0 \<and> end_time r' = None \<and> row_query r' = ''data analyst'')"
  using updateSearchOperation_sets_supplied_fields
    [of "[''op-1'' \<mapsto> pending_row]" "''op-1''" pending_row
        "no_updates\<lparr>u_status := Some Running, u_progress := Some (1 / 2)\<rparr>" 2000]
  by (auto simp: no_updates_def pending_row_def)

lemma updateLocationStats_total:
  assumes "\<forall>r \<in> set tbl. 0 \<le> lr_total_searches r"
  shows "updateLocationStats i success now tbl =
     Inr (map (\<lambda>r. if lr_id r = i then location_stats_set (if success then 1 else 0) now r else r) tbl)"
proof -
  have "\<not> (\<exists>r \<in> set tbl. lr_id r = i \<and> lr_total_searches r + 1 = 0)"
    using assms by fastforce
  then show ?thesis by (simp add: updateLocationStats_def)
qed

text \<open>
  Claim C4. Recording an outcome for a location (\<open>updateLocationSuccess\<close>, which runs
  \<open>updateLocationStats\<close>) succeeds on a table whose counters are not negative, adds one to
  the total, adds one to the successes for a success, and leaves the stored success rate
  equal to the new successes divided by the new total (which is not zero); rows of other
  ids are untouched. From zero counters, a success and then a failure give the rate
  \<open>1/2\<close> and a total of \<open>2\<close>.
\<close>

theorem success_rate_is_ratio_of_counters:
  assumes "\<forall>r \<in> set tbl. 0 \<le> lr_total_searches r"
  shows "\<exists>tbl' m'. updateLocationSuccess i success now tbl m = Inr (tbl', m') \<and>
      updateLocationStats i success now tbl = Inr tbl' \<and> length tbl' = length tbl \<and>
      (\<forall>k < length tbl. lr_id (tbl ! k) = i \<longrightarrow>
          lr_total_searches (tbl' ! k) = lr_total_searches (tbl ! k) + 1 \<and>
          lr_successful_searches (tbl' ! k) =
            lr_successful_searches (tbl ! k) + (if success then 1 else 0) \<and>
          lr_total_searches (tbl' ! k) \<noteq> 0 \<and>
          lr_success_rate (tbl' ! k) =
            real_of_int (lr_successful_searches (tbl' ! k)) / real_of_int (lr_total_searches (tbl' ! k))) \<and>
      (\<forall>k < length tbl. lr_id (tbl ! k) \<noteq> i \<longrightarrow> tbl' ! k = tbl ! k) \<and>
      (\<forall>r. lr_total_searches r = 0 \<and> lr_successful_searches r = 0 \<longrightarrow>
         (\<exists>r1 r2. updateLocationStats (lr_id r) True now [r] = Inr [r1] \<and>
                  updateLocationStats (lr_id r) False now [r1] = Inr [r2] \<and>
                  lr_success_rate r2 = 1 / 2 \<and> lr_total_searches r2 = 2))"
proof -
  let ?tbl' = "map (\<lambda>r. if lr_id r = i then location_stats_set (if success then 1 else 0) now r else r) tbl"
  have stats: "updateLocationStats i success now tbl = Inr ?tbl'"
    by (rule updateLocationStats_total [OF assms])
  have nonneg: "\<And>k. k < length tbl \<Longrightarrow> 0 \<le> lr_total_searches (tbl ! k)"
    using assms by simp
  have upd: "\<forall>k < length tbl. lr_id (tbl ! k) = i \<longrightarrow>
          lr_total_searches (?tbl' ! k) = lr_total_searches (tbl ! k) + 1 \<and>
          lr_successful_searches (?tbl' ! k) =
            lr_successful_searches (tbl ! k) + (if success then 1 else 0) \<and>
          lr_total_searches (?tbl' ! k) \<noteq> 0 \<and>
          lr_success_rate (?tbl' ! k) =
            real_of_int (lr_successful_searches (?tbl' ! k)) / real_of_int (lr_total_searches (?tbl' ! k))"
  proof (intro allI impI)
    fix k assume k: "k < length tbl" and "lr_id (tbl ! k) = i"
    from nonneg [OF k] have "lr_total_searches (tbl ! k) + 1 \<noteq> 0" by linarith
    with k \<open>lr_id (tbl ! k) = i\<close> show "lr_total_searches (?tbl' ! k) = lr_total_searches (tbl ! k) + 1 \<and>
          lr_successful_searches (?tbl' ! k) =
            lr_successful_searches (tbl ! k) + (if success then 1 else 0) \<and>
          lr_total_searches (?tbl' ! k) \<noteq> 0 \<and>
          lr_success_rate (?tbl' ! k) =
            real_of_int (lr_successful_searches (?tbl' ! k)) / real_of_int (lr_total_searches (?tbl' ! k))"
      by (simp add: location_stats_set_def)
  qed
  have frame: "\<forall>k < length tbl. lr_id (tbl ! k) \<noteq> i \<longrightarrow> ?tbl' ! k = tbl ! k"
    by simp
  have fresh: "\<forall>r. lr_total_searches r = 0 \<and> lr_successful_searches r = 0 \<longrightarrow>
         (\<exists>r1 r2. updateLocationStats (lr_id r) True now [r] = Inr [r1] \<and>
                  updateLocationStats (lr_id r) False now [r1] = Inr [r2] \<and>
                  lr_success_rate r2 = 1 / 2 \<and> lr_total_searches r2 = 2)"
    by (simp add: updateLocationStats_def location_stats_set_def)
  have "updateLocationSuccess i success now tbl m =
      Inr (?tbl', m\<lparr>locationQueue := (locationQueue m)
                    \<lparr>locations := array_sort location_compare (db_getLocations True ?tbl')\<rparr>\<rparr>)"
    by (simp add: updateLocationSuccess_def stats)
  with stats upd frame fresh show ?thesis
    by (intro exI conjI) (assumption | simp)+
qed

theorem success_rate_is_ratio_of_counters_witness:
  "0 \<le> lr_total_searches fresh_row \<and>
   (\<exists>r1 r2. updateLocationStats ''loc-1'' True 10 [fresh_row] = Inr [r1] \<and>
            updateLocationStats ''loc-1'' False 10 [r1] = Inr [r2] \<and>
            lr_success_rate r1 = 1 \<and> lr_total_searches r1 = 1 \<and>
            lr_success_rate r2 = 1 / 2 \<and> lr_total_searches r2 = 2)"
  using success_rate_is_ratio_of_counters [of "[fresh_row]" "''loc-1''" True 10 new_LocationManager]
  by (simp add: fresh_row_def updateLocationStats_def location_stats_set_def)

section \<open>The search engines\<close>

lemma js_add_NaN [simp]: "js_add a NaN = NaN"
  by (cases a) simp_all

lemma js_min_NaN [simp]: "js_min NaN b = NaN"
  by simp

lemma score_without_terms:
  assumes "filter (\<lambda>t. length t > 2) (split_on (CHR '' '') (toLowerCase (q_query q))) = []"
  shows "calculateRelevanceScore item q = NaN"
  by (simp add: calculateRelevanceScore_def Let_def assms js_div_lengths_def)

text \<open>
  Claim C5. The claim puts the score into \<open>[0, 1]\<close> for every item and query, also for a
  query of which no word has more than two characters. There the code divides zero matches
  by zero terms: for the query \<open>vp hr\<close> the score is \<open>NaN\<close>, which \<open>Math.min(score, 1.0)\<close>
  passes on.
\<close>

theorem score_of_short_query_is_NaN: "calculateRelevanceScore linkedin_item short_query = NaN"
  by (rule score_without_terms) (simp add: short_query_def toLowerCase_def char_toLowerCase_def)

section \<open>Progress\<close>

text \<open>
  The three branches of \<open>calculateEstimatedTime\<close>, whatever the double operations give.
\<close>

lemma estimate_of_completed_or_failed:
  assumes "status operation = Completed \<or> status operation = Failed"
  shows "calculateEstimatedTime double_div double_mul now operation = Some 0"
  using assms by (auto simp: calculateEstimatedTime_def)

lemma estimate_before_first_location:
  assumes "status operation \<noteq> Completed" and "status operation \<noteq> Failed"
      and "searchedLocations operation = 0"
  shows "calculateEstimatedTime double_div double_mul now operation = None"
  using assms by (simp add: calculateEstimatedTime_def)

lemma estimate_otherwise:
  assumes "status operation \<noteq> Completed" and "status operation \<noteq> Failed"
      and "searchedLocations operation \<noteq> 0"
  shows "calculateEstimatedTime double_div double_mul now operation =
           Some (round (double_mul
                   (double_div (real_of_int (now - startTime operation))
                      (real_of_int (searchedLocations operation)))
                   (real_of_int (totalLocations operation - searchedLocations operation))))"
  using assms by (simp add: calculateEstimatedTime_def Let_def)

lemma getSearchProgress_of_row:
  assumes "tbl i = Some row"
  shows "map_option p_estimatedTimeRemaining (getSearchProgress double_div double_mul i now tbl) =
           map_option (calculateEstimatedTime double_div double_mul now) (getSearchOperation i tbl)"
  using assms by (simp add: getSearchProgress_def getSearchOperation_def)



section \<open>The blacklist\<close>

lemma blacklist_after_deletes:
  "blacklistedLocations (locationQueue (fold blacklist_delete ids m)) =
     blacklistedLocations (locationQueue m) - set ids"
  by (induction ids arbitrary: m) (auto simp: blacklist_delete_def)

text \<open>
  Claim C10, as amended. \<open>blacklistLocation\<close> blacklists the id and arms one more callback,
  due after the given duration; the callbacks armed before stay armed, also those for the
  same id. The location is selectable again as soon as any callback for it has run: the
  new one, or an older one that is due earlier.
\<close>

theorem blacklist_expiry:
  "timeouts (blacklistLocation i d w) = timeouts w @ [\<lparr>due = clock w + d, target = i\<rparr>] \<and>
   \<not> selectable i (blacklistLocation i d w) \<and>
   (selectable i (elapse t (blacklistLocation i d w)) \<longleftrightarrow>
      (clock w + d \<le> t \<or> (\<exists>c \<in> set (timeouts w). target c = i \<and> due c \<le> t)))"
  by (auto simp: blacklistLocation_def elapse_def selectable_def blacklist_after_deletes
      blacklist_add_def)

text \<open>
  The claim as stated fails: blacklisted at time \<open>0\<close> for \<open>10\<close> and again at time \<open>5\<close> for
  \<open>10\<close>, the location has two callbacks armed and is selectable at time \<open>10\<close>, before
  \<open>5 + 10\<close>.
\<close>

theorem blacklist_expiry_counterexample:
  "length (timeouts (blacklistLocation ''loc-1'' 10 (elapse 5 (blacklistLocation ''loc-1'' 10 idle_manager)))) = 2 \<and>
   \<not> selectable ''loc-1'' (blacklistLocation ''loc-1'' 10 (elapse 5 (blacklistLocation ''loc-1'' 10 idle_manager))) \<and>
   selectable ''loc-1''
     (elapse 10 (blacklistLocation ''loc-1'' 10 (elapse 5 (blacklistLocation ''loc-1'' 10 idle_manager)))) \<and>
   (10 :: nat) < 5 + 10"
  by (simp add: blacklistLocation_def elapse_def selectable_def idle_manager_def
      new_LocationManager_def blacklist_add_def blacklist_delete_def)

section \<open>The answer of the AI filter\<close>

text \<open>
  Claim C7. When no brace pair can be taken from the answer, or \<open>JSON.parse\<close> throws on
  the text taken, \<open>parseResultFilterResponse\<close> returns every original result, in order, with
  \<open>removedCount = 0\<close>; so the list it returns is empty only if the original list was.
\<close>

theorem unparseable_answer_keeps_all_results:
  assumes "match_braces content = None \<or>
           (\<exists>matched. match_braces content = Some matched \<and> json_parse matched = None)"
  shows "filteredResults (parseResultFilterResponse json_parse toNumber toIndex content originalResults)
           = map Some originalResults \<and>
         removedCount (parseResultFilterResponse json_parse toNumber toIndex content originalResults) = 0 \<and>
         (filteredResults (parseResultFilterResponse json_parse toNumber toIndex content originalResults) = []
            \<longleftrightarrow> originalResults = [])"
  using assms
  by (auto simp: parseResultFilterResponse_def all_results_unmatched_def all_results_caught_def)

theorem unparseable_answer_keeps_all_results_witness:
  "(match_braces ''I kept 0 and 2 {relevantIndices: [0, 2]'' = None \<or>
    (\<exists>matched. match_braces ''I kept 0 and 2 {relevantIndices: [0, 2]'' = Some matched \<and>
       (\<lambda>t. None :: json option) matched = None)) \<and>
   filteredResults (parseResultFilterResponse (\<lambda>t. None) (\<lambda>v. None) (\<lambda>v. None)
       ''I kept 0 and 2 {relevantIndices: [0, 2]'' [''a'', ''b'', ''c''])
     = [Some ''a'', Some ''b'', Some ''c'']"
  using unparseable_answer_keeps_all_results
    [of "''I kept 0 and 2 {relevantIndices: [0, 2]''" "\<lambda>t. None" "\<lambda>v. None" "\<lambda>v. None" "[''a'', ''b'', ''c'']"]
  by (simp add: match_braces_def)

text \<open>
  For comparison, two answers that do parse: entries out of range are dropped and an entry
  that is no index yields \<open>undefined\<close>; an object without \<open>relevantIndices\<close> drops everything.
\<close>

lemma parsed_answer_selects:
  "filteredResults
     (parseResultFilterResponse
        (\<lambda>t. Some (JObj [(''relevantIndices'', JArr [JNum 2, JNum 0, JNum 7, JNum (1 / 2)])]))
        (\<lambda>v. None) (\<lambda>v. None) ''{}'' [''a'', ''b'', ''c''])
     = [Some ''c'', Some ''a'', None]"
  by (simp add: parseResultFilterResponse_def match_braces_def array_read_def)

lemma parsed_answer_without_indices:
  "filteredResults
     (parseResultFilterResponse (\<lambda>t. Some (JObj [(''reasoning'', JStr ''none fit'')]))
        (\<lambda>v. None) (\<lambda>v. None) ''{}'' [''a'', ''b'', ''c''])
     = []"
  by (simp add: parseResultFilterResponse_def match_braces_def array_read_def)

section \<open>Deduplication\<close>

lemma fold_dedup_step:
  "fold (dedup_step p) rs ({}, []) =
     ((\<lambda>r. normalizeUrl p (url r)) ` set rs,
      map (\<lambda>i. rs ! i)
        (filter (\<lambda>i. \<forall>j < i. normalizeUrl p (url (rs ! j)) \<noteq> normalizeUrl p (url (rs ! i)))
           [0..<length rs]))"
proof (induction rs rule: rev_induct)
  case Nil
  show ?case by simp
next
  case (snoc x xs)
  let ?key = "\<lambda>r. normalizeUrl p (url r)"
  let ?P = "\<lambda>ys i. \<forall>j < i. ?key (ys ! j) \<noteq> ?key (ys ! i)"
  have old: "filter (?P (xs @ [x])) [0..<length xs] = filter (?P xs) [0..<length xs]"
    by (rule filter_cong) (auto simp: nth_append)
  have nth_old: "map (\<lambda>i. (xs @ [x]) ! i) (filter (?P xs) [0..<length xs])
      = map (\<lambda>i. xs ! i) (filter (?P xs) [0..<length xs])"
    by (rule map_cong) (auto simp: nth_append)
  have last: "?P (xs @ [x]) (length xs) \<longleftrightarrow> ?key x \<notin> ?key ` set xs"
  proof
    assume first: "?P (xs @ [x]) (length xs)"
    show "?key x \<notin> ?key ` set xs"
    proof
      assume "?key x \<in> ?key ` set xs"
      then obtain r where "r \<in> set xs" and "?key x = ?key r" by blast
      then obtain j where "j < length xs" and "xs ! j = r" by (auto simp: in_set_conv_nth)
      with first \<open>?key x = ?key r\<close> show False by (auto simp: nth_append)
    qed
  next
    assume fresh: "?key x \<notin> ?key ` set xs"
    show "?P (xs @ [x]) (length xs)"
    proof (intro allI impI)
      fix j assume "j < length xs"
      then have "xs ! j \<in> set xs" by simp
      then have "?key (xs ! j) \<in> ?key ` set xs" by (rule imageI)
      with fresh have "?key (xs ! j) \<noteq> ?key x" by metis
      with \<open>j < length xs\<close> show "?key ((xs @ [x]) ! j) \<noteq> ?key ((xs @ [x]) ! length xs)"
        by (simp add: nth_append)
    qed
  qed
  show ?case
    using snoc.IH old nth_old last
    by (auto simp: dedup_step_def Let_def insert_absorb)
qed

lemma deduplicateResults_nth:
  "deduplicateResults p rs =
     map (\<lambda>i. rs ! i)
       (filter (\<lambda>i. \<forall>j < i. normalizeUrl p (url (rs ! j)) \<noteq> normalizeUrl p (url (rs ! i)))
          [0..<length rs])"
  by (simp add: deduplicateResults_def fold_dedup_step)

lemma fold_dedup_step_distinct:
  "distinct (map (\<lambda>r. normalizeUrl p (url r)) (snd (fold (dedup_step p) rs ({}, []))))
   \<and> (\<lambda>r. normalizeUrl p (url r)) ` set (snd (fold (dedup_step p) rs ({}, [])))
       = fst (fold (dedup_step p) rs ({}, []))"
  by (induction rs rule: rev_induct) (auto simp: dedup_step_def Let_def)

lemma deduplicateResults_distinct:
  "distinct (map (\<lambda>r. normalizeUrl p (url r)) (deduplicateResults p rs))"
  using fold_dedup_step_distinct [of p rs] by (simp add: deduplicateResults_def)

lemma deduplicateResults_of_distinct:
  assumes "distinct (map (\<lambda>r. normalizeUrl p (url r)) rs)"
  shows "deduplicateResults p rs = rs"
proof -
  let ?key = "\<lambda>r. normalizeUrl p (url r)"
  have "filter (\<lambda>i. \<forall>j < i. ?key (rs ! j) \<noteq> ?key (rs ! i)) [0..<length rs] = [0..<length rs]"
  proof (rule filter_True, rule ballI, intro allI impI)
    fix i j assume i: "i \<in> set [0..<length rs]" and j: "j < i"
    then have ij: "i < length (map ?key rs)" "j < length (map ?key rs)" "j \<noteq> i"
      by simp_all
    have "map ?key rs ! j \<noteq> map ?key rs ! i"
      using nth_eq_iff_index_eq [OF assms ij(2) ij(1)] ij(3) by blast
    with ij show "?key (rs ! j) \<noteq> ?key (rs ! i)" by simp
  qed
  then show ?thesis by (simp add: deduplicateResults_nth map_nth)
qed

text \<open>
  Claim C8. \<open>deduplicateResults\<close> keeps exactly the results that no earlier result of the
  batch shares its key with, in their order; the key of a result is \<open>normalizeUrl\<close> of its
  URL, which for a URL that parses is protocol, \<open>//\<close>, host and path, without query string
  and fragment. The keys of the output are distinct, and deduplicating the output again
  returns it unchanged.
\<close>

theorem deduplicateResults_keeps_first_occurrences:
  "deduplicateResults p rs =
     map (\<lambda>i. rs ! i)
       (filter (\<lambda>i. \<forall>j < i. normalizeUrl p (url (rs ! j)) \<noteq> normalizeUrl p (url (rs ! i)))
          [0..<length rs]) \<and>
   distinct (map (\<lambda>r. normalizeUrl p (url r)) (deduplicateResults p rs)) \<and>
   deduplicateResults p (deduplicateResults p rs) = deduplicateResults p rs \<and>
   (\<forall>u parsed. p u = Some parsed \<longrightarrow>
      normalizeUrl p u = protocol parsed @ ''//'' @ host parsed @ pathname parsed)"
  using deduplicateResults_nth [of p rs] deduplicateResults_distinct [of p rs]
    deduplicateResults_of_distinct [OF deduplicateResults_distinct [of p rs]]
  by (simp add: normalizeUrl_def)

theorem deduplicateResults_keeps_first_occurrences_witness:
  "deduplicateResults page_url_parser
     [result_at ''A'' ''https://x.org/in/a?trk=1'', result_at ''B'' ''https://x.org/in/b'',
      result_at ''A again'' ''https://x.org/in/a#top'', result_at ''no url'' ''n/a'',
      result_at ''no url again'' ''n/a'']
   = [result_at ''A'' ''https://x.org/in/a?trk=1'', result_at ''B'' ''https://x.org/in/b'',
      result_at ''no url'' ''n/a''] \<and>
   normalizeUrl page_url_parser ''https://x.org/in/a?trk=1'' = ''https://x.org/in/a''"
proof -
  have "deduplicateResults page_url_parser
     [result_at ''A'' ''https://x.org/in/a?trk=1'', result_at ''B'' ''https://x.org/in/b'',
      result_at ''A again'' ''https://x.org/in/a#top'', result_at ''no url'' ''n/a'',
      result_at ''no url again'' ''n/a'']
   = [result_at ''A'' ''https://x.org/in/a?trk=1'', result_at ''B'' ''https://x.org/in/b'',
      result_at ''no url'' ''n/a'']"
    by (simp add: deduplicateResults_def dedup_step_def normalizeUrl_def page_url_parser_def
        result_at_def Let_def)
  then show ?thesis
    using deduplicateResults_keeps_first_occurrences
      [of page_url_parser
          "[result_at ''A'' ''https://x.org/in/a?trk=1'', result_at ''B'' ''https://x.org/in/b'',
            result_at ''A again'' ''https://x.org/in/a#top'', result_at ''no url'' ''n/a'',
            result_at ''no url again'' ''n/a'']"]
    by (simp add: normalizeUrl_def page_url_parser_def)
qed

section \<open>The rotation of locations\<close>

lemma mset_insert_sorted: "mset (insert_sorted cmp x xs) = add_mset x (mset xs)"
  by (induction xs) auto

lemma mset_array_sort: "mset (array_sort cmp xs) = mset xs"
  by (induction xs) (auto simp: array_sort_def mset_insert_sorted)

lemma length_array_sort: "length (array_sort cmp xs) = length xs"
  using mset_array_sort [of cmp xs] by (metis size_mset)

lemma set_insert_sorted: "set (insert_sorted cmp x xs) = insert x (set xs)"
  using mset_insert_sorted [of cmp x xs] by (metis set_mset_add_mset_insert set_mset_mset)

lemma sorted_insert_sorted:
  assumes trans: "\<And>a b c. cmp a b \<le> 0 \<Longrightarrow> cmp b c \<le> 0 \<Longrightarrow> cmp a c \<le> 0"
      and total: "\<And>a b. cmp a b \<le> 0 \<or> cmp b a \<le> 0"
      and sorted: "sorted_wrt (\<lambda>a b. cmp a b \<le> 0) xs"
  shows "sorted_wrt (\<lambda>a b. cmp a b \<le> 0) (insert_sorted cmp x xs)"
  using sorted
proof (induction xs)
  case Nil
  show ?case by simp
next
  case (Cons y ys)
  show ?case
  proof (cases "cmp x y \<le> 0")
    case True
    then have "\<forall>z \<in> set ys. cmp x z \<le> 0"
      using Cons.prems trans by auto
    with True Cons.prems show ?thesis by simp
  next
    case False
    then have "cmp y x \<le> 0" using total [of x y] by simp
    with False Cons show ?thesis by (simp add: set_insert_sorted)
  qed
qed

lemma sorted_array_sort:
  assumes "\<And>a b c. cmp a b \<le> 0 \<Longrightarrow> cmp b c \<le> 0 \<Longrightarrow> cmp a c \<le> 0"
      and "\<And>a b. cmp a b \<le> 0 \<or> cmp b a \<le> 0"
  shows "sorted_wrt (\<lambda>a b. cmp a b \<le> 0) (array_sort cmp xs)"
proof (induction xs)
  case Nil
  show ?case by (simp add: array_sort_def)
next
  case (Cons x xs)
  have "array_sort cmp (x # xs) = insert_sorted cmp x (array_sort cmp xs)"
    by (simp add: array_sort_def)
  with Cons sorted_insert_sorted [OF assms] show ?case by simp
qed

lemma location_compare_le:
  "location_compare a b \<le> 0 \<longleftrightarrow>
     priority b < priority a \<or> (priority a = priority b \<and> successRate b \<le> successRate a)"
  by (auto simp: location_compare_def)

lemma sorted_locations:
  "sorted_wrt (\<lambda>a b. priority b < priority a \<or> (priority a = priority b \<and> successRate b \<le> successRate a))
     (array_sort location_compare L)"
proof -
  have "sorted_wrt (\<lambda>a b. location_compare a b \<le> 0) (array_sort location_compare L)"
  proof (rule sorted_array_sort)
    fix a b c
    assume "location_compare a b \<le> 0" and "location_compare b c \<le> 0"
    then show "location_compare a c \<le> 0"
      unfolding location_compare_le by auto
  next
    fix a b
    show "location_compare a b \<le> 0 \<or> location_compare b a \<le> 0"
      unfolding location_compare_le by auto
  qed
  then show ?thesis by (simp add: location_compare_le)
qed

lemma next_location_loop_hit:
  assumes "currentIndex q < length (locations q)"
      and "loc_id (locations q ! currentIndex q) \<notin> blacklistedLocations q"
  shows "next_location_loop q 0 =
     (Some (locations q ! currentIndex q),
      q\<lparr>currentIndex := (currentIndex q + 1) mod length (locations q)\<rparr>)"
  using assms by (subst next_location_loop.simps) (auto simp: Let_def)

lemma getNextLocation_initialized:
  assumes "initialized m"
      and "currentIndex (locationQueue m) < length (locations (locationQueue m))"
      and "loc_id (locations (locationQueue m) ! currentIndex (locationQueue m))
             \<notin> blacklistedLocations (locationQueue m)"
  shows "getNextLocation defaults tbl m =
     (Some (locations (locationQueue m) ! currentIndex (locationQueue m)), tbl,
      m\<lparr>locationQueue := (locationQueue m)
           \<lparr>currentIndex := (currentIndex (locationQueue m) + 1)
                              mod length (locations (locationQueue m))\<rparr>\<rparr>)"
proof -
  have "locations (locationQueue m) \<noteq> []" using assms(2) by auto
  with assms show ?thesis
    by (simp add: getNextLocation_def initialize_def next_location_loop_hit)
qed

lemma getNextLocation_times_initialized:
  assumes "initialized m"
      and "currentIndex (locationQueue m) < length (locations (locationQueue m))"
      and "\<forall>l \<in> set (locations (locationQueue m)). loc_id l \<notin> blacklistedLocations (locationQueue m)"
  shows "getNextLocation_times k defaults tbl m =
     (map (\<lambda>j. Some (locations (locationQueue m)
                       ! ((currentIndex (locationQueue m) + j) mod length (locations (locationQueue m)))))
          [0..<k],
      tbl,
      m\<lparr>locationQueue := (locationQueue m)
           \<lparr>currentIndex := (currentIndex (locationQueue m) + k)
                              mod length (locations (locationQueue m))\<rparr>\<rparr>)"
  using assms
proof (induction k arbitrary: m)
  case 0
  then show ?case by simp
next
  case (Suc k)
  let ?q = "locationQueue m"
  let ?n = "length (locations ?q)"
  let ?c = "currentIndex ?q"
  let ?m' = "m\<lparr>locationQueue := ?q\<lparr>currentIndex := (?c + 1) mod ?n\<rparr>\<rparr>"
  have free: "loc_id (locations ?q ! ?c) \<notin> blacklistedLocations ?q"
    using Suc.prems(2,3) by simp
  have step: "getNextLocation defaults tbl m = (Some (locations ?q ! ?c), tbl, ?m')"
    by (rule getNextLocation_initialized [OF Suc.prems(1,2) free])
  have n: "0 < ?n" using Suc.prems(2) by auto
  have rest: "getNextLocation_times k defaults tbl ?m' =
     (map (\<lambda>j. Some (locations ?q ! (((?c + 1) mod ?n + j) mod ?n))) [0..<k], tbl,
      m\<lparr>locationQueue := ?q\<lparr>currentIndex := ((?c + 1) mod ?n + k) mod ?n\<rparr>\<rparr>)"
    using Suc.IH [of ?m'] Suc.prems n by simp
  have shift: "\<And>j. ((?c + 1) mod ?n + j) mod ?n = (?c + Suc j) mod ?n"
    by (simp add: mod_add_left_eq)
  have upt: "[0..<Suc k] = 0 # map Suc [0..<k]"
    by (simp add: upt_conv_Cons map_Suc_upt del: upt_Suc)
  have here: "(?c + 0) mod ?n = ?c" using Suc.prems(2) by simp
  have "getNextLocation_times (Suc k) defaults tbl m =
     (Some (locations ?q ! ?c) # map (\<lambda>j. Some (locations ?q ! (((?c + 1) mod ?n + j) mod ?n))) [0..<k],
      tbl, m\<lparr>locationQueue := ?q\<lparr>currentIndex := ((?c + 1) mod ?n + k) mod ?n\<rparr>\<rparr>)"
    by (simp only: getNextLocation_times.simps step rest Let_def prod.case)
  also have "Some (locations ?q ! ?c) # map (\<lambda>j. Some (locations ?q ! (((?c + 1) mod ?n + j) mod ?n))) [0..<k]
      = map (\<lambda>j. Some (locations ?q ! ((?c + j) mod ?n))) [0..<Suc k]"
    by (simp only: shift upt list.map map_map o_def here)
  also have "((?c + 1) mod ?n + k) mod ?n = (?c + Suc k) mod ?n"
    by (rule shift)
  finally show ?case .
qed

lemma getNextLocation_initialize:
  "getNextLocation defaults tbl m =
     getNextLocation defaults (fst (initialize defaults tbl m)) (snd (initialize defaults tbl m))"
  by (simp add: getNextLocation_def initialize_def Let_def)

lemma getNextLocation_times_initialize:
  assumes "fst (initialize defaults tbl m) = tbl"
  shows "fst (getNextLocation_times k defaults tbl m) =
     fst (getNextLocation_times k defaults tbl (snd (initialize defaults tbl m)))"
proof (cases k)
  case 0
  then show ?thesis by simp
next
  case (Suc k')
  have "getNextLocation defaults tbl m =
      getNextLocation defaults tbl (snd (initialize defaults tbl m))"
    using getNextLocation_initialize [of defaults tbl m] assms by simp
  with Suc show ?thesis by simp
qed


text \<open>
  Claim C3. Take a manager that has not been initialized, with its cursor at \<open>0\<close>, and let
  \<open>L\<close> be the non-empty list of active locations it loads, none of them blacklisted. Then
  as many calls of \<open>getNextLocation\<close> as \<open>L\<close> has elements return the elements of \<open>L\<close>, each as
  often as it occurs in \<open>L\<close>, in the order of the manager's sort: higher priority first, and
  among equal priorities higher success rate first. Call number \<open>j\<close> (from \<open>0\<close>) of any
  number of calls returns element \<open>j mod |L|\<close> of that order, so the sequence repeats.
\<close>

theorem getNextLocation_round_robin:
  assumes "\<not> initialized m" and "currentIndex (locationQueue m) = 0"
      and "db_getLocations True tbl = L" and "L \<noteq> []"
      and "\<forall>l \<in> set L. loc_id l \<notin> blacklistedLocations (locationQueue m)"
  shows "fst (getNextLocation_times (length L) defaults tbl m) = map Some (array_sort location_compare L) \<and>
     mset (array_sort location_compare L) = mset L \<and>
     sorted_wrt (\<lambda>a b. priority b < priority a \<or> (priority a = priority b \<and> successRate b \<le> successRate a))
       (array_sort location_compare L) \<and>
     (\<forall>k. fst (getNextLocation_times k defaults tbl m) =
            map (\<lambda>j. Some (array_sort location_compare L ! (j mod length L))) [0..<k])"
proof -
  define order where "order = array_sort location_compare L"
  define m1 where "m1 = m\<lparr>locationQueue := (locationQueue m)\<lparr>locations := order\<rparr>, initialized := True\<rparr>"
  have init: "initialize defaults tbl m = (tbl, m1)"
    using assms(1,3,4) by (simp add: initialize_def Let_def m1_def order_def)
  have len: "length order = length L"
    unfolding order_def by (rule length_array_sort)
  have m1: "initialized m1" "locations (locationQueue m1) = order"
    "currentIndex (locationQueue m1) = 0"
    "blacklistedLocations (locationQueue m1) = blacklistedLocations (locationQueue m)"
    using assms(2) by (simp_all add: m1_def)
  have "set order = set L"
    unfolding order_def using mset_array_sort [of location_compare L] by (rule mset_eq_setD)
  with assms(5) m1
  have free: "\<forall>l \<in> set (locations (locationQueue m1)). loc_id l \<notin> blacklistedLocations (locationQueue m1)"
    by simp
  have pos: "currentIndex (locationQueue m1) < length (locations (locationQueue m1))"
    using m1 len assms(4) by simp
  have calls: "fst (getNextLocation_times k defaults tbl m) =
      map (\<lambda>j. Some (order ! (j mod length L))) [0..<k]" for k
  proof -
    have "fst (getNextLocation_times k defaults tbl m) = fst (getNextLocation_times k defaults tbl m1)"
      using getNextLocation_times_initialize [of defaults tbl m k] init by simp
    also have "\<dots> = map (\<lambda>j. Some (order ! (j mod length L))) [0..<k]"
      unfolding getNextLocation_times_initialized [OF m1(1) pos free]
      by (simp add: m1 len)
    finally show ?thesis .
  qed
  have once: "map (\<lambda>j. Some (order ! (j mod length L))) [0..<length L] = map Some order"
  proof -
    have "map (\<lambda>j. Some (order ! (j mod length L))) [0..<length L] = map (\<lambda>j. Some (order ! j)) [0..<length order]"
      unfolding len by (rule map_cong) auto
    also have "\<dots> = map Some (map (\<lambda>j. order ! j) [0..<length order])" by simp
    also have "\<dots> = map Some order" by (simp only: map_nth)
    finally show ?thesis .
  qed
  have first: "fst (getNextLocation_times (length L) defaults tbl m) = map Some order"
    using calls [of "length L"] once by (rule trans)
  have perm: "mset order = mset L"
    unfolding order_def by (rule mset_array_sort)
  have sorted: "sorted_wrt (\<lambda>a b. priority b < priority a \<or> (priority a = priority b \<and> successRate b \<le> successRate a)) order"
    unfolding order_def by (rule sorted_locations)
  from first perm sorted calls show ?thesis
    unfolding order_def by blast
qed

theorem getNextLocation_round_robin_witness:
  "\<not> initialized new_LocationManager \<and>
   currentIndex (locationQueue new_LocationManager) = 0 \<and>
   db_getLocations True three_rows \<noteq> [] \<and>
   map (map_option loc_name) (fst (getNextLocation_times 3 [] three_rows new_LocationManager))
     = [Some ''United States'', Some ''Canada'', Some ''United Kingdom''] \<and>
   map (map_option loc_name) (fst (getNextLocation_times 5 [] three_rows new_LocationManager))
     = [Some ''United States'', Some ''Canada'', Some ''United Kingdom'', Some ''United States'',
        Some ''Canada'']"
proof -
  let ?L = "db_getLocations True three_rows"
  have L: "?L = map location_of_row
      [location_row ''loc-us'' ''United States'' 10 0, location_row ''loc-ca'' ''Canada'' 9 (1 / 2),
       location_row ''loc-uk'' ''United Kingdom'' 9 (1 / 5)]"
    by (simp add: db_getLocations_def three_rows_def array_sort_def row_compare_def
        location_row_def)
  have order: "array_sort location_compare ?L = ?L"
    unfolding L
    by (simp add: array_sort_def location_compare_def location_of_row_def location_row_def)
  have fresh: "\<not> initialized new_LocationManager"
    "currentIndex (locationQueue new_LocationManager) = 0"
    "\<forall>l \<in> set ?L. loc_id l \<notin> blacklistedLocations (locationQueue new_LocationManager)"
    by (simp_all add: new_LocationManager_def)
  have nonempty: "?L \<noteq> []" unfolding L by simp
  have len: "length ?L = 3" unfolding L by simp
  note calls = getNextLocation_round_robin [OF fresh(1,2) refl nonempty fresh(3), of "[]"]
  from calls have three: "fst (getNextLocation_times 3 [] three_rows new_LocationManager) = map Some ?L"
    unfolding len order by blast
  from calls have "fst (getNextLocation_times 5 [] three_rows new_LocationManager) =
      map (\<lambda>j. Some (?L ! (j mod 3))) [0..<5]"
    unfolding len order by blast
  moreover have "[0..<5] = [0, 1, 2, 3, 4 :: nat]" by code_simp
  ultimately have five: "map (map_option loc_name) (fst (getNextLocation_times 5 [] three_rows new_LocationManager))
     = [Some ''United States'', Some ''Canada'', Some ''United Kingdom'', Some ''United States'',
        Some ''Canada'']"
    unfolding L by (simp add: location_of_row_def location_row_def)
  have "map (map_option loc_name) (map Some ?L) =
      [Some ''United States'', Some ''Canada'', Some ''United Kingdom'']"
    unfolding L by (simp add: location_of_row_def location_row_def)
  with three five fresh(1,2) nonempty show ?thesis by simp
qed

section \<open>The orchestrator\<close>

lemma objects_modify_object [simp]:
  "objects (modify_object r f w) = (objects w)[r := f (objects w ! r)]"
  by (simp add: modify_object_def)

lemma active_modify_object [simp]:
  "activeOperations (modify_object r f w) = activeOperations w"
  by (simp add: modify_object_def)

lemma timers_modify_object [simp]:
  "operationTimers (modify_object r f w) = operationTimers w"
  by (simp add: modify_object_def)

lemma table_modify_object [simp]:
  "search_operations (modify_object r f w) = search_operations w"
  by (simp add: modify_object_def)

lemma rows_modify_object [simp]:
  "location_rows (modify_object r f w) = location_rows w"
  by (simp add: modify_object_def)

lemma objects_db_update [simp]: "objects (db_update i u t w) = objects w"
  by (simp add: db_update_def)

lemma active_db_update [simp]: "activeOperations (db_update i u t w) = activeOperations w"
  by (simp add: db_update_def)

lemma timers_db_update [simp]: "operationTimers (db_update i u t w) = operationTimers w"
  by (simp add: db_update_def)

lemma table_db_update [simp]:
  "search_operations (db_update i u t w) = updateSearchOperation i u t (search_operations w)"
  by (simp add: db_update_def)

lemma rows_db_update [simp]: "location_rows (db_update i u t w) = location_rows w"
  by (simp add: db_update_def)

lemma updateSearchOperation_no_row:
  "tbl i = None \<Longrightarrow> updateSearchOperation i u now tbl = tbl"
  by (simp add: updateSearchOperation_def Let_def)

lemma cancelSearch_unknown:
  "activeOperations w i = None \<Longrightarrow> cancelSearch i now w = (False, w)"
  by (simp add: cancelSearch_def)

lemma cancelSearch_active:
  assumes "activeOperations w i = Some r"
  shows "fst (cancelSearch i now w) = True"
    and "activeOperations (snd (cancelSearch i now w)) = (activeOperations w)(i := None)"
    and "objects (snd (cancelSearch i now w)) =
           (objects w)[r := (objects w ! r)\<lparr>status := Cancelled, endTime := Some now\<rparr>]"
    and "search_operations (snd (cancelSearch i now w)) =
           updateSearchOperation i (no_updates\<lparr>u_status := Some Cancelled, u_endTime := Some now\<rparr>) now
             (search_operations w)"
  using assms by (simp_all add: cancelSearch_def Let_def split: option.split)

lemma location_loop_cancelled:
  assumes "activeOperations w i = None" and "k < length locs"
  shows "location_loop env i r locs k c w = (CancelSeen k, w)"
  using assms by (subst location_loop.simps) (simp add: location_step_def)

subsection \<open>The store calls of the loop\<close>

lemma operation_write_accepted:
  assumes "store_fault env c = None"
  shows "operation_write env c i u t w = Inr (db_update i u t w)"
  using assms by (simp add: operation_write_def)

lemma operation_write_refused:
  assumes "store_fault env c = Some message"
  shows "operation_write env c i u t w = Inl message"
  using assms by (simp add: operation_write_def)

lemma updateLocationStats_accepted:
  assumes "list_all (\<lambda>row. 0 \<le> lr_total_searches row) tbl"
  shows "\<exists>tbl'. updateLocationStats i success now tbl = Inr tbl' \<and>
           list_all (\<lambda>row. 0 \<le> lr_total_searches row) tbl'"
proof -
  have no_null: "\<not> (\<exists>r \<in> set tbl. lr_id r = i \<and> lr_total_searches r + 1 = 0)"
  proof
    assume "\<exists>r \<in> set tbl. lr_id r = i \<and> lr_total_searches r + 1 = 0"
    then obtain r where "r \<in> set tbl" and "lr_total_searches r + 1 = 0" by blast
    moreover from assms \<open>r \<in> set tbl\<close> have "0 \<le> lr_total_searches r"
      by (simp add: list_all_iff)
    ultimately show False by simp
  qed
  let ?tbl' = "map (\<lambda>r. if lr_id r = i
                         then location_stats_set (if success then 1 else 0) now r else r) tbl"
  have "updateLocationStats i success now tbl = Inr ?tbl'"
    using no_null by (simp add: updateLocationStats_def Let_def)
  moreover have "list_all (\<lambda>row. 0 \<le> lr_total_searches row) ?tbl'"
    using assms by (induction tbl) (simp_all add: location_stats_set_def)
  ultimately show ?thesis by blast
qed

lemma location_write_accepted:
  assumes "store_fault env c = None"
      and "list_all (\<lambda>row. 0 \<le> lr_total_searches row) (location_rows w)"
  shows "\<exists>w'. location_write env c i success now w = Inr w' \<and>
           objects w' = objects w \<and> activeOperations w' = activeOperations w \<and>
           search_operations w' = search_operations w \<and>
           list_all (\<lambda>row. 0 \<le> lr_total_searches row) (location_rows w')"
proof -
  from updateLocationStats_accepted [OF assms(2)]
  obtain tbl' where stats: "updateLocationStats i success now (location_rows w) = Inr tbl'"
    and counters: "list_all (\<lambda>row. 0 \<le> lr_total_searches row) tbl'"
    by blast
  then show ?thesis
    using assms(1) by (simp add: location_write_def updateLocationSuccess_def)
qed

lemma location_write_refused:
  assumes "store_fault env c = Some message"
  shows "location_write env c i success now w = Inl message"
  using assms by (simp add: location_write_def)

lemma location_failed_accepted:
  assumes "store_fault env (HandlerWrite i) = None"
      and "list_all (\<lambda>row. 0 \<le> lr_total_searches row) (location_rows w)"
  shows "\<exists>w'. location_failed env locs i c w =
             (if c + 1 \<ge> maxConsecutiveFailures then Break w' else Continue (c + 1) w') \<and>
           objects w' = objects w \<and> activeOperations w' = activeOperations w \<and>
           search_operations w' = search_operations w \<and>
           list_all (\<lambda>row. 0 \<le> lr_total_searches row) (location_rows w')"
proof -
  from location_write_accepted [OF assms]
  obtain w1 where "location_write env (HandlerWrite i) (loc_id (locs ! i)) False (time_at env i) w = Inr w1"
    and "objects w1 = objects w" and "activeOperations w1 = activeOperations w"
    and "search_operations w1 = search_operations w"
    and "list_all (\<lambda>row. 0 \<le> lr_total_searches row) (location_rows w1)"
    by blast
  then show ?thesis by (simp add: location_failed_def Let_def)
qed

lemma location_failed_refused:
  assumes "store_fault env (HandlerWrite i) = Some message"
  shows "location_failed env locs i c w = Throw message w"
  using assms by (simp add: location_failed_def location_write_refused)

subsection \<open>One location\<close>

lemma trackedD:
  assumes "tracked operationId r n w"
  shows "activeOperations w operationId = Some r" and "r < length (objects w)"
    and "totalLocations (objects w ! r) = int n"
    and "search_operations w operationId = None"
    and "list_all (\<lambda>row. 0 \<le> lr_total_searches row) (location_rows w)"
  using assms by (simp_all add: tracked_def)

lemma trackedI:
  assumes "activeOperations w operationId = Some r" and "r < length (objects w)"
    and "totalLocations (objects w ! r) = int n"
    and "search_operations w operationId = None"
    and "list_all (\<lambda>row. 0 \<le> lr_total_searches row) (location_rows w)"
  shows "tracked operationId r n w"
  using assms by (simp add: tracked_def)

lemma tracked_progress:
  assumes "tracked operationId r n w"
  shows "tracked operationId r n
           (db_update operationId u t
              (modify_object r (\<lambda>operation. operation\<lparr>currentLocation := l, progress := p\<rparr>) w))"
  using trackedD [OF assms] by (intro trackedI) (simp_all add: updateSearchOperation_no_row)

lemma location_step_raised:
  assumes "tracked operationId r (length locs) w" and "i < length locs"
      and "undisturbed env i" and "outcome env i = Raised"
  shows "\<exists>w'. location_step env operationId r locs i c w =
             (if c + 1 \<ge> maxConsecutiveFailures then Break w' else Continue (c + 1) w') \<and>
           tracked operationId r (length locs) w' \<and>
           searchedLocations (objects w' ! r) = searchedLocations (objects w ! r) \<and>
           currentLocation (objects w' ! r) = Some (loc_name (locs ! i)) \<and>
           search_operations w' = search_operations w"
proof -
  let ?u = "no_updates\<lparr>u_currentLocation :=
                (if loc_name (locs ! i) = [] then None else Some (loc_name (locs ! i))),
              u_progress := Some (real i / real (length locs))\<rparr>"
  let ?w2 = "db_update operationId ?u (time_at env i)
       (modify_object r (\<lambda>operation. operation\<lparr>currentLocation := Some (loc_name (locs ! i)),
                                               progress := real i / real (length locs)\<rparr>) w)"
  have w2: "tracked operationId r (length locs) ?w2" by (rule tracked_progress [OF assms(1)])
  have calm: "\<not> cancel_requested env i" "store_fault env (ProgressWrite i) = None"
    "store_fault env (HandlerWrite i) = None"
    using assms(3) by (simp_all add: undisturbed_def)
  note t = trackedD [OF assms(1)]
  have step: "location_step env operationId r locs i c w = location_failed env locs i c ?w2"
    using t(1) assms(4) calm
    by (simp add: location_step_def Let_def operation_write_accepted)
  from location_failed_accepted [OF calm(3) trackedD(5) [OF w2]]
  obtain w' where failed: "location_failed env locs i c ?w2 =
        (if c + 1 \<ge> maxConsecutiveFailures then Break w' else Continue (c + 1) w')"
    and same: "objects w' = objects ?w2" "activeOperations w' = activeOperations ?w2"
      "search_operations w' = search_operations ?w2"
    and counters: "list_all (\<lambda>row. 0 \<le> lr_total_searches row) (location_rows w')"
    by blast
  have "tracked operationId r (length locs) w'"
    using trackedD [OF w2] same counters by (intro trackedI) simp_all
  moreover have "searchedLocations (objects w' ! r) = searchedLocations (objects w ! r)"
    using same(1) t(2) by simp
  moreover have "currentLocation (objects w' ! r) = Some (loc_name (locs ! i))"
    using same(1) t(2) by simp
  moreover have "search_operations w' = search_operations w"
    using same(3) t(4) by (simp add: updateSearchOperation_no_row)
  ultimately show ?thesis using step failed by metis
qed

lemma location_step_refused:
  assumes "tracked operationId r (length locs) w" and "i < length locs"
      and "\<not> cancel_requested env i" and "store_fault env (ProgressWrite i) = None"
      and "outcome env i = Raised" and "store_fault env (HandlerWrite i) = Some message"
  shows "\<exists>w'. location_step env operationId r locs i c w = Throw message w' \<and>
           tracked operationId r (length locs) w' \<and>
           searchedLocations (objects w' ! r) = searchedLocations (objects w ! r) \<and>
           search_operations w' = search_operations w"
proof -
  let ?u = "no_updates\<lparr>u_currentLocation :=
                (if loc_name (locs ! i) = [] then None else Some (loc_name (locs ! i))),
              u_progress := Some (real i / real (length locs))\<rparr>"
  let ?w2 = "db_update operationId ?u (time_at env i)
       (modify_object r (\<lambda>operation. operation\<lparr>currentLocation := Some (loc_name (locs ! i)),
                                               progress := real i / real (length locs)\<rparr>) w)"
  have w2: "tracked operationId r (length locs) ?w2" by (rule tracked_progress [OF assms(1)])
  note t = trackedD [OF assms(1)]
  have step: "location_step env operationId r locs i c w = Throw message ?w2"
    using t(1) assms(3,4,5)
    by (simp add: location_step_def Let_def operation_write_accepted
        location_failed_refused [OF assms(6)])
  moreover have "searchedLocations (objects ?w2 ! r) = searchedLocations (objects w ! r)"
    using t(2) by simp
  moreover have "search_operations ?w2 = search_operations w"
    using t(4) by (simp add: updateSearchOperation_no_row)
  ultimately show ?thesis using w2 by blast
qed

lemma location_step_searched:
  assumes "tracked operationId r (length locs) w" and "i < length locs"
      and "undisturbed env i" and "outcome env i = Searched n"
  shows "\<exists>w'. location_step env operationId r locs i c w = Continue 0 w' \<and>
           tracked operationId r (length locs) w' \<and>
           searchedLocations (objects w' ! r) = int i + 1 \<and>
           search_operations w' = search_operations w"
proof -
  let ?u = "no_updates\<lparr>u_currentLocation :=
                (if loc_name (locs ! i) = [] then None else Some (loc_name (locs ! i))),
              u_progress := Some (real i / real (length locs))\<rparr>"
  let ?w2 = "db_update operationId ?u (time_at env i)
       (modify_object r (\<lambda>operation. operation\<lparr>currentLocation := Some (loc_name (locs ! i)),
                                               progress := real i / real (length locs)\<rparr>) w)"
  have w2: "tracked operationId r (length locs) ?w2" by (rule tracked_progress [OF assms(1)])
  have calm: "\<not> cancel_requested env i" "store_fault env (ProgressWrite i) = None"
    "store_fault env (OutcomeWrite i) = None" "store_fault env (CountersWrite i) = None"
    using assms(3) by (simp_all add: undisturbed_def)
  note t = trackedD [OF assms(1)]
  from location_write_accepted [OF calm(3) trackedD(5) [OF w2]]
  obtain w4 where written: "location_write env (OutcomeWrite i) (loc_id (locs ! i)) (0 < n)
        (time_at env i) ?w2 = Inr w4"
    and same: "objects w4 = objects ?w2" "activeOperations w4 = activeOperations ?w2"
      "search_operations w4 = search_operations ?w2"
    and counters: "list_all (\<lambda>row. 0 \<le> lr_total_searches row) (location_rows w4)"
    by blast
  have w4: "tracked operationId r (length locs) w4"
    using trackedD [OF w2] same counters by (intro trackedI) simp_all
  note t4 = trackedD [OF w4]
  let ?w5 = "modify_object r
      (\<lambda>operation. operation\<lparr>totalResults := totalResults operation + int n,
                              searchedLocations := int i + 1\<rparr>) w4"
  let ?w6 = "db_update operationId
      (no_updates\<lparr>u_totalResults := Some (totalResults (objects ?w5 ! r)),
                   u_searchedLocations := Some (searchedLocations (objects ?w5 ! r))\<rparr>)
      (time_at env i) ?w5"
  have step: "location_step env operationId r locs i c w = Continue 0 ?w6"
    using t(1) assms(4) calm written
    by (simp add: location_step_def Let_def operation_write_accepted)
  have "tracked operationId r (length locs) ?w6"
    using t4 by (intro trackedI) (simp_all add: updateSearchOperation_no_row)
  moreover have "searchedLocations (objects ?w6 ! r) = int i + 1"
    using t4(2) by simp
  moreover have "search_operations ?w6 = search_operations w"
    using t4(4) same(3) t(4) by (simp add: updateSearchOperation_no_row)
  ultimately show ?thesis using step by blast
qed

subsection \<open>The loop\<close>

lemma streak_Suc_raised:
  assumes "outcome env i = Raised"
  shows "streak env (Suc i) = Suc (streak env i)"
  using assms by simp

lemma streak_Suc_searched:
  assumes "outcome env i = Searched n"
  shows "streak env (Suc i) = 0"
  using assms by simp

lemma location_loop_advances:
  assumes "i \<le> s" and "s \<le> length locs"
      and "\<forall>k. i \<le> k \<and> k < s \<longrightarrow> undisturbed env k \<and> streak env (Suc k) < 3"
      and "tracked operationId r (length locs) w"
      and "searchedLocations (objects w ! r) \<le> int i"
  shows "\<exists>w'. location_loop env operationId r locs i (streak env i) w =
             location_loop env operationId r locs s (streak env s) w' \<and>
           tracked operationId r (length locs) w' \<and>
           searchedLocations (objects w' ! r) \<le> int s \<and>
           search_operations w' = search_operations w"
  using assms
proof (induction "s - i" arbitrary: i w)
  case 0
  then have "i = s" by simp
  with "0.prems"(4,5) show ?case by blast
next
  case (Suc d)
  then have less: "i < s" by simp
  then have i_len: "i < length locs" using Suc.prems(2) by simp
  have calm: "undisturbed env i" and low: "streak env (Suc i) < 3"
    using Suc.prems(3) less by simp_all
  have d: "d = s - Suc i" using Suc.hyps(2) by simp
  have later: "\<forall>k. Suc i \<le> k \<and> k < s \<longrightarrow> undisturbed env k \<and> streak env (Suc k) < 3"
    using Suc.prems(3) by simp
  have next_le: "Suc i \<le> s" using less by simp
  have "\<exists>w1. location_loop env operationId r locs i (streak env i) w =
             location_loop env operationId r locs (Suc i) (streak env (Suc i)) w1 \<and>
           tracked operationId r (length locs) w1 \<and>
           searchedLocations (objects w1 ! r) \<le> int (Suc i) \<and>
           search_operations w1 = search_operations w"
  proof (cases "outcome env i")
    case (Searched n)
    from location_step_searched [OF Suc.prems(4) i_len calm Searched]
    obtain w1 where step: "location_step env operationId r locs i (streak env i) w = Continue 0 w1"
      and w1: "tracked operationId r (length locs) w1"
        "searchedLocations (objects w1 ! r) = int i + 1"
        "search_operations w1 = search_operations w"
      by blast
    have "location_loop env operationId r locs i (streak env i) w =
        location_loop env operationId r locs (Suc i) (streak env (Suc i)) w1"
      using i_len step streak_Suc_searched [OF Searched]
      by (subst location_loop.simps) simp
    moreover have "searchedLocations (objects w1 ! r) \<le> int (Suc i)" using w1(2) by simp
    ultimately show ?thesis using w1(1,3) by blast
  next
    case Raised
    have go_on: "\<not> streak env i + 1 \<ge> maxConsecutiveFailures"
      using low streak_Suc_raised [OF Raised] by (simp add: maxConsecutiveFailures_def)
    from location_step_raised [OF Suc.prems(4) i_len calm Raised, of "streak env i"] go_on
    obtain w1 where step: "location_step env operationId r locs i (streak env i) w =
          Continue (streak env i + 1) w1"
      and w1: "tracked operationId r (length locs) w1"
        "searchedLocations (objects w1 ! r) = searchedLocations (objects w ! r)"
        "search_operations w1 = search_operations w"
      by auto
    have "location_loop env operationId r locs i (streak env i) w =
        location_loop env operationId r locs (Suc i) (streak env (Suc i)) w1"
      using i_len step streak_Suc_raised [OF Raised]
      by (subst location_loop.simps) simp
    moreover have "searchedLocations (objects w1 ! r) \<le> int (Suc i)"
      using w1(2) Suc.prems(5) by simp
    ultimately show ?thesis using w1(1,3) by blast
  qed
  then obtain w1 where first: "location_loop env operationId r locs i (streak env i) w =
             location_loop env operationId r locs (Suc i) (streak env (Suc i)) w1"
    and w1: "tracked operationId r (length locs) w1"
      "searchedLocations (objects w1 ! r) \<le> int (Suc i)"
      "search_operations w1 = search_operations w"
    by blast
  from Suc.hyps(1) [OF d next_le Suc.prems(2) later w1(1,2)]
  obtain w' where rest: "location_loop env operationId r locs (Suc i) (streak env (Suc i)) w1 =
             location_loop env operationId r locs s (streak env s) w'"
    and w': "tracked operationId r (length locs) w'"
      "searchedLocations (objects w' ! r) \<le> int s"
      "search_operations w' = search_operations w1"
    by blast
  from first rest have "location_loop env operationId r locs i (streak env i) w =
             location_loop env operationId r locs s (streak env s) w'"
    by simp
  moreover from w'(3) w1(3) have "search_operations w' = search_operations w" by simp
  ultimately show ?case using w'(1,2) by blast
qed

lemma streak_ge_raised:
  "m \<le> streak env k \<Longrightarrow> m \<le> k \<and> (\<forall>l. k - m \<le> l \<and> l < k \<longrightarrow> outcome env l = Raised)"
proof (induction k arbitrary: m)
  case 0
  then show ?case by simp
next
  case (Suc k)
  show ?case
  proof (cases "outcome env k")
    case (Searched n)
    with Suc.prems show ?thesis by auto
  next
    case Raised
    show ?thesis
    proof (cases m)
      case 0
      then show ?thesis by auto
    next
      case (Suc m')
      with Suc.prems Raised have "m' \<le> streak env k" by simp
      from Suc.IH [OF this] have "m' \<le> k" and "\<forall>l. k - m' \<le> l \<and> l < k \<longrightarrow> outcome env l = Raised"
        by simp_all
      with Raised \<open>m = Suc m'\<close> show ?thesis
        by (auto simp: less_Suc_eq)
    qed
  qed
qed

lemma streak_below_three:
  assumes "\<forall>k < j. \<not> (outcome env k = Raised \<and> outcome env (k + 1) = Raised \<and> outcome env (k + 2) = Raised)"
      and "k \<le> j + 2"
  shows "streak env k < 3"
proof (rule ccontr)
  assume "\<not> streak env k < 3"
  then have "3 \<le> streak env k" by simp
  from streak_ge_raised [OF this]
  have k: "3 \<le> k" and raised: "\<forall>l. k - 3 \<le> l \<and> l < k \<longrightarrow> outcome env l = Raised"
    by simp_all
  from k raised have "outcome env (k - 3) = Raised" "outcome env (k - 3 + 1) = Raised"
    "outcome env (k - 3 + 2) = Raised"
    by simp_all
  moreover from k assms(2) have "k - 3 < j" by simp
  ultimately show False using assms(1) by blast
qed

text \<open>
  The first three failures in a row are those of the locations \<open>j\<close>, \<open>j + 1\<close> and \<open>j + 2\<close>,
  and nothing disturbs the loop before location \<open>j + 2\<close>: the loop reaches that location
  with two failures counted. A success on the way has set the counter back to zero;
  without that, two failures before it and one behind it would stop the loop early.
\<close>

lemma location_loop_reaches_third_failure:
  assumes "j + 2 < length locs"
      and "outcome env j = Raised" and "outcome env (j + 1) = Raised"
      and "\<forall>k < j. \<not> (outcome env k = Raised \<and> outcome env (k + 1) = Raised \<and> outcome env (k + 2) = Raised)"
      and "\<forall>k < j + 2. undisturbed env k"
      and "tracked operationId r (length locs) w"
      and "searchedLocations (objects w ! r) = 0"
  shows "\<exists>w'. location_loop env operationId r locs 0 0 w =
             location_loop env operationId r locs (j + 2) 2 w' \<and>
           tracked operationId r (length locs) w' \<and>
           searchedLocations (objects w' ! r) \<le> int (j + 2) \<and>
           search_operations w' = search_operations w"
proof -
  have low: "\<forall>k. 0 \<le> k \<and> k < j + 2 \<longrightarrow> undisturbed env k \<and> streak env (Suc k) < 3"
  proof (intro allI impI)
    fix k assume k: "0 \<le> k \<and> k < j + 2"
    then have "Suc k \<le> j + 2" by simp
    from streak_below_three [OF assms(4) this] assms(5) k
    show "undisturbed env k \<and> streak env (Suc k) < 3" by simp
  qed
  have "streak env (j + 2) < 3" by (rule streak_below_three [OF assms(4)]) simp
  moreover have "streak env (j + 2) = Suc (Suc (streak env j))"
    using assms(2,3) by simp
  ultimately have two: "streak env (j + 2) = 2" by simp
  have start: "searchedLocations (objects w ! r) \<le> int 0" using assms(7) by simp
  have "j + 2 \<le> length locs" using assms(1) by simp
  from location_loop_advances [OF _ this low assms(6) start] two
  show ?thesis by simp
qed

subsection \<open>The whole run\<close>

lemma globalSearchProfiles_state:
  assumes "globalSearchProfiles operationId rowId now q cfg locs w0 = (operationId, r, w)"
  shows "activeOperations w operationId = Some r" and "r < length (objects w)"
    and "totalLocations (objects w ! r) = int (length locs)"
    and "searchedLocations (objects w ! r) = 0"
    and "location_rows w = location_rows w0"
  using assms by (auto simp: globalSearchProfiles_def Let_def)

lemma globalSearchProfiles_row:
  assumes "globalSearchProfiles operationId rowId now q cfg locs w0 = (operationId, r, w)"
      and "rowId \<noteq> operationId" and "search_operations w0 operationId = None"
  shows "search_operations w operationId = None"
    and "map_option row_status (search_operations w rowId) = Some Pending"
  using assms by (auto simp: globalSearchProfiles_def insertSearchOperation_def Let_def)

lemma cancelSearch_without_row:
  assumes "search_operations w operationId = None"
  shows "search_operations (snd (cancelSearch operationId now w)) = search_operations w"
proof (cases "activeOperations w operationId")
  case None
  then show ?thesis by (simp add: cancelSearch_unknown)
next
  case (Some r)
  from cancelSearch_active(4) [OF Some] assms show ?thesis
    by (simp add: updateSearchOperation_no_row)
qed


text \<open>
  The same run, but the store refuses the \<open>updateLocationSuccess\<close> of the \<open>catch\<close> block at
  location \<open>j + 2\<close>: the error leaves the loop, and \<open>handleOperationError\<close> ends the
  operation failed with the message of the error.
\<close>

lemma run_stops_failed:
  assumes "tracked operationId r (length locs) w"
      and "searchedLocations (objects w ! r) = 0"
      and "j + 2 < length locs"
      and "outcome env j = Raised" and "outcome env (j + 1) = Raised"
      and "outcome env (j + 2) = Raised"
      and "\<forall>k < j. \<not> (outcome env k = Raised \<and> outcome env (k + 1) = Raised \<and> outcome env (k + 2) = Raised)"
      and "\<forall>k < j + 2. undisturbed env k"
      and "\<not> cancel_requested env (j + 2)" and "store_fault env (ProgressWrite (j + 2)) = None"
      and "store_fault env (HandlerWrite (j + 2)) = Some message"
      and "store_fault env StartWrite = None" and "store_fault env FailureWrite = None"
  shows "\<exists>w'. processGlobalSearch env operationId locs w = (Handled message, w') \<and>
           status (objects w' ! r) = Failed \<and>
           error (objects w' ! r) = Some message \<and>
           activeOperations w' operationId = None \<and>
           search_operations w' = search_operations w"
proof -
  note t = trackedD [OF assms(1)]
  let ?w2 = "db_update operationId (no_updates\<lparr>u_status := Some Running\<rparr>) (time_at env 0)
      (modify_object r (\<lambda>operation. operation\<lparr>status := Running\<rparr>) w)"
  have w2: "tracked operationId r (length locs) ?w2"
    using t by (intro trackedI) (simp_all add: updateSearchOperation_no_row)
  have w2_searched: "searchedLocations (objects ?w2 ! r) = 0" using t(2) assms(2) by simp
  have w2_table: "search_operations ?w2 = search_operations w"
    using t(4) by (simp add: updateSearchOperation_no_row)
  from location_loop_reaches_third_failure [OF assms(3,4,5,7,8) w2 w2_searched]
  obtain w3 where reach: "location_loop env operationId r locs 0 0 ?w2 =
        location_loop env operationId r locs (j + 2) 2 w3"
    and w3: "tracked operationId r (length locs) w3"
      "search_operations w3 = search_operations ?w2"
    by blast
  from location_step_refused [OF w3(1) assms(3,9,10,6,11), of 2]
  obtain w4 where step: "location_step env operationId r locs (j + 2) 2 w3 = Throw message w4"
    and w4: "tracked operationId r (length locs) w4"
      "search_operations w4 = search_operations w3"
    by blast
  have loop: "location_loop env operationId r locs 0 0 ?w2 = (Escaped (j + 2) message, w4)"
    using reach step assms(3) by (subst (asm) (2) location_loop.simps) simp
  note t4 = trackedD [OF w4(1)]
  let ?now = "time_at env (j + 2)"
  let ?w5 = "db_update operationId
      (no_updates\<lparr>u_status := Some Failed, u_endTime := Some ?now, u_error := Some message\<rparr>)
      ?now
      (modify_object r (\<lambda>operation. operation\<lparr>status := Failed, endTime := Some ?now,
                                              error := Some message\<rparr>) w4)"
  let ?w6 = "?w5\<lparr>activeOperations := (activeOperations ?w5)(operationId := None)\<rparr>"
  have handled: "handleOperationError env operationId message ?now w4 = ?w6"
    using t4(1) assms(13)
    by (simp add: handleOperationError_def Let_def operation_write_accepted)
  have run: "processGlobalSearch env operationId locs w = (Handled message, ?w6)"
    using t(1) loop assms(12) handled
    by (simp add: processGlobalSearch_def Let_def operation_write_accepted)
  have "status (objects ?w6 ! r) = Failed" using t4(2) by simp
  moreover have "error (objects ?w6 ! r) = Some message" using t4(2) by simp
  moreover have "activeOperations ?w6 operationId = None" by simp
  moreover have "search_operations ?w6 = search_operations w"
    using t4(4) w4(2) w3(2) w2_table by (simp add: updateSearchOperation_no_row)
  ultimately show ?thesis using run by blast
qed

subsection \<open>A run with three failures in a row\<close>

lemma failing_surroundings_raise:
  "outcome failing_surroundings 3 = Raised" "outcome failing_surroundings (3 + 1) = Raised"
  "outcome failing_surroundings (3 + 2) = Raised"
  by (simp_all add: failing_surroundings_def)

lemma failing_surroundings_before:
  "\<forall>k < 3. \<not> (outcome failing_surroundings k = Raised \<and>
      outcome failing_surroundings (k + 1) = Raised \<and> outcome failing_surroundings (k + 2) = Raised)"
proof (intro allI impI)
  fix k :: nat assume "k < 3"
  then have "k = 0 \<or> k = 1 \<or> k = 2" by arith
  then show "\<not> (outcome failing_surroundings k = Raised \<and>
      outcome failing_surroundings (k + 1) = Raised \<and> outcome failing_surroundings (k + 2) = Raised)"
    by (auto simp: failing_surroundings_def)
qed

lemma refusing_surroundings_outcome:
  "outcome refusing_surroundings = outcome failing_surroundings"
  by (simp add: refusing_surroundings_def)

lemma started_search_state:
  "started_search = (''op-1'', 0, snd (snd started_search))"
  "tracked ''op-1'' 0 (length seven_locations) (snd (snd started_search))"
  "searchedLocations (objects (snd (snd started_search)) ! 0) = 0"
  "map_option row_status (search_operations (snd (snd started_search)) ''row-1'') = Some Pending"
proof -
  let ?initial = "new_world\<lparr>location_rows := seven_rows\<rparr>"
  let ?w = "snd (snd started_search)"
  have start: "globalSearchProfiles ''op-1'' ''row-1'' 1000 ''data analyst'' empty_config
      seven_locations ?initial = (''op-1'', 0, ?w)"
    by (simp add: started_search_def globalSearchProfiles_def Let_def new_world_def)
  then show "started_search = (''op-1'', 0, ?w)" by (simp add: started_search_def)
  note state = globalSearchProfiles_state [OF start]
  have no_row: "search_operations ?initial ''op-1'' = None" by (simp add: new_world_def)
  have other: "''row-1'' \<noteq> ''op-1''" by simp
  note row = globalSearchProfiles_row [OF start other no_row]
  have "list_all (\<lambda>row. 0 \<le> lr_total_searches row) (location_rows ?w)"
    using state(5) by (simp add: seven_rows_def location_row_def)
  with state(1,2,3) row(1) show "tracked ''op-1'' 0 (length seven_locations) ?w"
    by (intro trackedI)
  show "searchedLocations (objects ?w ! 0) = 0" by (rule state(4))
  show "map_option row_status (search_operations ?w ''row-1'') = Some Pending" by (rule row(2))
qed




text \<open>
  The same search when the store refuses the statement of the \<open>catch\<close> block at the sixth
  location: the operation ends failed, with the message of the store's error.
\<close>

lemma refused_handler_write_fails_the_operation:
  "(let (operationId, r, w) = started_search;
        (ended, w') = processGlobalSearch refusing_surroundings operationId seven_locations w
    in ended = Handled ''database is locked'' \<and>
       status (objects w' ! r) = Failed \<and>
       error (objects w' ! r) = Some ''database is locked'' \<and>
       activeOperations w' operationId = None)"
proof -
  let ?w = "snd (snd started_search)"
  note started = started_search_state
  have len: "3 + 2 < length seven_locations" by (simp add: seven_locations_def)
  have calm: "\<forall>k < 3 + 2. undisturbed refusing_surroundings k"
    by (simp add: undisturbed_def refusing_surroundings_def failing_surroundings_def)
  have at5: "\<not> cancel_requested refusing_surroundings (3 + 2)"
    "store_fault refusing_surroundings (ProgressWrite (3 + 2)) = None"
    "store_fault refusing_surroundings (HandlerWrite (3 + 2)) = Some ''database is locked''"
    "store_fault refusing_surroundings StartWrite = None"
    "store_fault refusing_surroundings FailureWrite = None"
    by (simp_all add: refusing_surroundings_def failing_surroundings_def)
  note raised = failing_surroundings_raise [folded refusing_surroundings_outcome]
  note before = failing_surroundings_before [folded refusing_surroundings_outcome]
  from run_stops_failed [OF started(2,3) len raised before calm at5]
  obtain w' where run: "processGlobalSearch refusing_surroundings ''op-1'' seven_locations ?w
        = (Handled ''database is locked'', w')"
    and ended: "status (objects w' ! 0) = Failed"
      "error (objects w' ! 0) = Some ''database is locked''"
      "activeOperations w' ''op-1'' = None"
    by blast
  have result: "processGlobalSearch refusing_surroundings ''op-1'' seven_locations ?w
        = (Handled ''database is locked'', w')"
    by (rule run)
  show ?thesis
    by (subst started(1), simp only: Let_def prod.case result, intro conjI refl ended)
qed

subsection \<open>Cancellation\<close>

text \<open>
  Claim C2. The parts of the claim about the active map hold (\<open>cancelSearch_unknown\<close>,
  \<open>cancelSearch_active\<close>, \<open>location_loop_cancelled\<close>). The update is not persisted:
  \<open>globalSearchProfiles\<close> stores the operation under the id that \<open>insertSearchOperation\<close>
  draws, not under the operation's own, so the \<open>UPDATE ... WHERE id = ?\<close> of \<open>cancelSearch\<close>
  meets no row. After a start and a cancellation the call has returned \<open>true\<close>, the
  operation has left the active map and its object is cancelled, but the store is as it
  was: it has no operation of that id, and the stored row is still pending.
\<close>

theorem cancellation_is_not_persisted:
  "(let (operationId, r, w) =
          globalSearchProfiles ''op-1'' ''row-1'' 1000 ''data analyst'' empty_config
            seven_locations new_world;
        (cancelled, w') = cancelSearch operationId 2000 w
    in cancelled \<and> activeOperations w' operationId = None \<and>
       status (objects w' ! r) = Cancelled \<and> endTime (objects w' ! r) = Some 2000 \<and>
       search_operations w' = search_operations w \<and>
       getSearchOperation operationId (search_operations w') = None \<and>
       map_option status (getSearchOperation ''row-1'' (search_operations w')) = Some Pending)"
  by (simp add: globalSearchProfiles_def cancelSearch_def insertSearchOperation_def
      updateSearchOperation_def getSearchOperation_def new_world_def Let_def modify_object_def
      db_update_def)

end
